theory Spec2Isabelle
  imports Complex_Main "HOL-Library.Sublist"
begin

section \<open>Exceptions (errors.py) and HTTP responses\<close>

text \<open>
  A JSON value, as \<^verbatim>\<open>json.loads\<close> produces it. The decoder itself belongs to the
  Python library and is a parameter of the model: a function that gives \<open>None\<close> on a text
  for which \<^verbatim>\<open>json.loads\<close> raises \<^verbatim>\<open>JSONDecodeError\<close>.
\<close>

datatype json = JNull | JBool bool | JNum int | JStr string
  | JArr "json list" | JObj "(string \<times> json) list"

text \<open>
  An \<^verbatim>\<open>aiohttp.ClientResponse\<close>, reduced to what \<^verbatim>\<open>HTTPClientBase.request\<close> reads:
  the status, the headers and the body. aiohttp's header mapping is case-insensitive;
  the model stores header names in lower case. \<open>body_bytes\<close> is what
  \<^verbatim>\<open>await response.read()\<close> returns and \<open>body_text\<close> what
  \<^verbatim>\<open>await response.text(encoding='utf-8')\<close> returns; each is \<open>None\<close> when the call raises
  (a payload that breaks off, bytes that are not UTF-8).
\<close>

record response =
  status :: int
  headers :: "(string \<times> string) list"
  body_bytes :: "string option"
  body_text :: "string option"

definition headers_get :: "response \<Rightarrow> string \<Rightarrow> string option" where
  "headers_get r k = map_of (headers r) k"

text \<open>
  The value of the local variable \<^verbatim>\<open>data\<close> of \<^verbatim>\<open>request\<close>: \<^verbatim>\<open>None\<close> before the first
  response, then the bytes of a media body, the decoded JSON document or the text.
\<close>

datatype data = NoData | Bytes string | Json json | Text string

text \<open>
  The exceptions of the program. \<open>Forbidden\<close>, \<open>NotFound\<close> and \<open>PlatformServerError\<close> are
  subclasses of \<open>HTTPException\<close> (errors.py); \<open>OSError\<close> carries its \<^verbatim>\<open>errno\<close>;
  \<open>BodyReadError\<close> is the exception of aiohttp's \<^verbatim>\<open>read()\<close> or \<^verbatim>\<open>text()\<close>, named by the
  call; \<open>JSONDecodeError\<close> is that of \<^verbatim>\<open>json.loads\<close>, with the text; \<open>ValueError\<close> is also
  what \<^verbatim>\<open>float\<close> raises; \<open>OtherError\<close> stands for any exception of a collaborator that is
  none of the others.
\<close>

datatype exc =
    OSError "int option"
  | HTTPException response data
  | Forbidden response data
  | NotFound response data
  | PlatformServerError response data
  | WSServerHandshakeError string
  | BodyReadError string
  | JSONDecodeError string
  | RuntimeError string
  | TypeError string
  | ValueError string
  | AttributeError string
  | OtherError string

text \<open>\<^verbatim>\<open>isinstance(e, HTTPException)\<close>, by the class hierarchy of errors.py.\<close>

fun isinstance_HTTPException :: "exc \<Rightarrow> bool" where
  "isinstance_HTTPException (HTTPException _ _) = True"
| "isinstance_HTTPException (Forbidden _ _) = True"
| "isinstance_HTTPException (NotFound _ _) = True"
| "isinstance_HTTPException (PlatformServerError _ _) = True"
| "isinstance_HTTPException _ = False"

section \<open>HTTPClientBase.request (http.py)\<close>

text \<open>
  \<^verbatim>\<open>json_or_text\<close>: the text of the body is read first; it is decoded as JSON when the
  content type is exactly \<^verbatim>\<open>application/json\<close>. A missing header raises \<^verbatim>\<open>KeyError\<close>,
  which is caught, and the text is returned; the handler catches nothing else, so the
  exception of \<^verbatim>\<open>response.text\<close> or of \<^verbatim>\<open>json.loads\<close> leaves the function.
\<close>

definition json_or_text :: "(string \<Rightarrow> json option) \<Rightarrow> response \<Rightarrow> exc + data" where
  "json_or_text json_loads r =
     (case body_text r of
        None \<Rightarrow> Inl (BodyReadError ''text'')
      | Some txt \<Rightarrow>
          (case headers_get r ''content-type'' of
             Some ct \<Rightarrow>
               if ct = ''application/json''
               then (case json_loads txt of
                       Some j \<Rightarrow> Inr (Json j)
                     | None \<Rightarrow> Inl (JSONDecodeError txt))
               else Inr (Text txt)
           | None \<Rightarrow> Inr (Text txt)))"

text \<open>
  The body as \<^verbatim>\<open>request\<close> reads it: binary passthrough for image and video types,
  \<^verbatim>\<open>json_or_text\<close> otherwise. \<open>Inl\<close> is the exception that the reading raises.
\<close>

definition read_data :: "(string \<Rightarrow> json option) \<Rightarrow> response \<Rightarrow> exc + data" where
  "read_data json_loads r =
     (let ct = (case headers_get r ''content-type'' of Some c \<Rightarrow> c | None \<Rightarrow> '''')
      in if prefix ''image/'' ct \<or> prefix ''video/'' ct
         then (case body_bytes r of
                 Some b \<Rightarrow> Inr (Bytes b)
               | None \<Rightarrow> Inl (BodyReadError ''read''))
         else json_or_text json_loads r)"

text \<open>
  What one call of \<^verbatim>\<open>self.session.request\<close> does: it raises, or it answers.
\<close>

datatype attempt = Raises exc | Responds response

text \<open>
  The state of one call of \<^verbatim>\<open>request\<close>: the local variables \<^verbatim>\<open>response\<close> and \<^verbatim>\<open>data\<close>,
  the durations passed to \<^verbatim>\<open>asyncio.sleep\<close> so far (in order), and the number of calls
  of \<^verbatim>\<open>session.request\<close> so far.
\<close>

record req_state =
  last_response :: "response option"
  last_data :: data
  sleeps :: "real list"
  attempts :: nat

definition backoff :: "nat \<Rightarrow> real" where
  "backoff tries = 1 + real tries * 2"

definition do_sleep :: "real \<Rightarrow> req_state \<Rightarrow> req_state" where
  "do_sleep d st = st\<lparr>sleeps := sleeps st @ [d]\<rparr>"

text \<open>
  The code after the loop: out of retries. The last line is the source's
  \<^verbatim>\<open>RuntimeError('Unreachable code in HTTP handling')\<close>.
\<close>

definition out_of_retries :: "req_state \<Rightarrow> (exc + data) \<times> req_state" where
  "out_of_retries st =
     (case last_response st of
        Some r \<Rightarrow>
          if status r \<ge> 500 then (Inl (PlatformServerError r (last_data st)), st)
          else (Inl (HTTPException r (last_data st)), st)
      | None \<Rightarrow> (Inl (RuntimeError ''Unreachable code in HTTP handling''), st))"

text \<open>
  The loop \<^verbatim>\<open>for tries in range(5)\<close>, by recursion over the remaining values of
  \<^verbatim>\<open>tries\<close>. \<open>session tries\<close> is what \<^verbatim>\<open>session.request\<close> does at that iteration, and
  \<open>float_of\<close> is Python's \<^verbatim>\<open>float\<close> on the \<^verbatim>\<open>retry-after\<close> header, \<open>None\<close> where it raises
  \<^verbatim>\<open>ValueError\<close>. The body is read before the status is tested, and nothing catches the
  exception of the reading or of \<^verbatim>\<open>float\<close>: it leaves \<^verbatim>\<open>request\<close>. The result is \<open>Inr\<close> the
  returned data or \<open>Inl\<close> the exception raised.
\<close>

fun request_loop ::
  "(string \<Rightarrow> json option) \<Rightarrow> (string \<Rightarrow> real option) \<Rightarrow> (nat \<Rightarrow> attempt) \<Rightarrow> nat list
     \<Rightarrow> req_state \<Rightarrow> (exc + data) \<times> req_state" where
  "request_loop json_loads float_of session [] st = out_of_retries st"
| "request_loop json_loads float_of session (tries # rest) st =
     (let st1 = st\<lparr>attempts := Suc (attempts st)\<rparr> in
      case session tries of
        Raises (OSError errno) \<Rightarrow>
          if tries < 4 \<and> (errno = Some 54 \<or> errno = Some 10054)
          then request_loop json_loads float_of session rest (do_sleep (backoff tries) st1)
          else (Inl (OSError errno), st1)
      | Raises e \<Rightarrow> (Inl e, st1)
      | Responds r \<Rightarrow>
          (let st2 = st1\<lparr>last_response := Some r\<rparr> in
           case read_data json_loads r of
             Inl e \<Rightarrow> (Inl e, st2)
           | Inr d \<Rightarrow>
               (let st3 = st2\<lparr>last_data := d\<rparr>
                in if 300 > status r \<and> status r \<ge> 200 then (Inr d, st3)
                   else if status r = 429 then
                     (case headers_get r ''retry-after'' of
                        Some hdr \<Rightarrow>
                          (case float_of hdr of
                             None \<Rightarrow> (Inl (ValueError hdr), st3)
                           | Some retry_after \<Rightarrow>
                               request_loop json_loads float_of session rest
                                 (do_sleep retry_after st3))
                      | None \<Rightarrow>
                          request_loop json_loads float_of session rest
                            (do_sleep (backoff tries) st3))
                   else if status r \<in> {500, 502, 504, 524} then
                     request_loop json_loads float_of session rest
                       (do_sleep (backoff tries) st3)
                   else if status r = 403 then (Inl (Forbidden r d), st3)
                   else if status r = 404 then (Inl (NotFound r d), st3)
                   else if status r \<ge> 500 then (Inl (PlatformServerError r d), st3)
                   else (Inl (HTTPException r d), st3))))"

definition request_init :: req_state where
  "request_init = \<lparr>last_response = None, last_data = NoData, sleeps = [], attempts = 0\<rparr>"

definition request ::
  "(string \<Rightarrow> json option) \<Rightarrow> (string \<Rightarrow> real option) \<Rightarrow> (nat \<Rightarrow> attempt)
     \<Rightarrow> (exc + data) \<times> req_state" where
  "request json_loads float_of session =
     request_loop json_loads float_of session [0, 1, 2, 3, 4] request_init"

section \<open>The gateway (gateway.py)\<close>

subsection \<open>Heartbeater\<close>

text \<open>
  A Python float that may be \<^verbatim>\<open>float('inf')\<close>. Readings of \<^verbatim>\<open>time.perf_counter()\<close> are
  finite and are modelled as reals, their difference as the difference of reals.
\<close>

datatype pyfloat = Inf | Fin real

fun pyfloat_gt :: "pyfloat \<Rightarrow> real \<Rightarrow> bool" where
  "pyfloat_gt Inf x = True"
| "pyfloat_gt (Fin y) x = (y > x)"

text \<open>
  The attributes of a \<^verbatim>\<open>Heartbeater\<close>. \<open>stop_ev\<close> is the flag of the
  \<^verbatim>\<open>threading.Event\<close>. \<open>main_thread_id\<close> is the attribute \<^verbatim>\<open>_main_thread_id\<close> that
  \<^verbatim>\<open>run\<close> reads: it is \<open>None\<close> while the object has no such attribute.
\<close>

record heartbeater =
  interval :: real
  stop_ev :: bool
  last_ping :: real
  last_pong :: real
  latency :: pyfloat
  main_thread_id :: "nat option"

text \<open>
  \<^verbatim>\<open>Heartbeater.__init__\<close>; \<open>t1\<close> and \<open>t2\<close> are the two readings of the clock. The
  constructor assigns \<^verbatim>\<open>ws\<close>, \<^verbatim>\<open>interval\<close>, the three message templates, \<^verbatim>\<open>_stop_ev\<close>,
  \<^verbatim>\<open>_last_ping\<close>, \<^verbatim>\<open>_last_pong\<close> and \<^verbatim>\<open>latency\<close>, and nothing else: \<^verbatim>\<open>_main_thread_id\<close>
  is not assigned here, nor by \<^verbatim>\<open>threading.Thread\<close>, nor anywhere else in the repository.
\<close>

definition Heartbeater_init :: "real \<Rightarrow> real \<Rightarrow> real \<Rightarrow> heartbeater" where
  "Heartbeater_init ival t1 t2 =
     \<lparr>interval = ival, stop_ev = False, last_ping = t1, last_pong = t2,
      latency = Inf, main_thread_id = None\<rparr>"

definition stop :: "heartbeater \<Rightarrow> heartbeater" where
  "stop hb = hb\<lparr>stop_ev := True\<rparr>"

datatype log_event =
    Debug string
  | Info string
  | Error string
  | StallWarning int bool
  | BehindWarning pyfloat

text \<open>
  \<^verbatim>\<open>record_pong\<close> at clock reading \<open>now\<close>; the second component is what it logs.
\<close>

definition record_pong :: "real \<Rightarrow> heartbeater \<Rightarrow> heartbeater \<times> log_event list" where
  "record_pong now hb =
     (let hb1 = hb\<lparr>last_pong := now\<rparr>;
          hb2 = hb1\<lparr>latency := Fin (last_pong hb1 - last_ping hb1)\<rparr>
      in (hb2, if pyfloat_gt (latency hb2) 10 then [BehindWarning (latency hb2)] else []))"

text \<open>
  One pass of the outer loop of \<^verbatim>\<open>run\<close>, as the environment plays it:
  \<^item> \<open>stop_called\<close>: another thread calls \<^verbatim>\<open>stop()\<close> before the wait on the event ends;
  \<^item> \<open>schedule\<close>: the exception of \<^verbatim>\<open>self.ws.ping()\<close> or
    \<^verbatim>\<open>asyncio.run_coroutine_threadsafe\<close>, if scheduling the probe fails;
  \<^item> \<open>timeouts\<close>: one entry for each \<^verbatim>\<open>f.result(10)\<close> that times out, telling whether
    \<^verbatim>\<open>sys._current_frames()\<close> has a frame for the thread looked up;
  \<^item> \<open>final\<close>: the exception of the \<^verbatim>\<open>f.result(10)\<close> that does not time out, if the
    probe failed;
  \<^item> \<open>clock\<close>: the reading of \<^verbatim>\<open>time.perf_counter()\<close> after the probe.
\<close>

record beat =
  stop_called :: bool
  schedule :: "exc option"
  timeouts :: "bool list"
  final :: "exc option"
  clock :: real

text \<open>
  The inner \<^verbatim>\<open>while True\<close> loop. \<open>tot\<close> is the local counter \<^verbatim>\<open>total\<close>. The result is \<open>Inl\<close> the
  exception that leaves the loop or \<open>Inr ()\<close> for \<^verbatim>\<open>break\<close>, with the log written.
  In the handler of the timeout, \<^verbatim>\<open>self._main_thread_id\<close> is evaluated first: a missing
  attribute raises \<^verbatim>\<open>AttributeError\<close>, which \<^verbatim>\<open>except KeyError\<close> does not catch.
\<close>

fun wait_result ::
  "heartbeater \<Rightarrow> bool list \<Rightarrow> exc option \<Rightarrow> int \<Rightarrow> log_event list
     \<Rightarrow> (exc + unit) \<times> log_event list" where
  "wait_result hb [] None tot lg = (Inr (), lg)"
| "wait_result hb [] (Some e) tot lg = (Inl e, lg)"
| "wait_result hb (frame_found # later) fin tot lg =
     (let tot1 = tot + 10 in
      case main_thread_id hb of
        None \<Rightarrow> (Inl (AttributeError ''_main_thread_id''), lg)
      | Some tid \<Rightarrow>
          wait_result hb later fin tot1 (lg @ [StallWarning tot1 frame_found]))"

text \<open>How the thread stands when the script of beats ends.\<close>

datatype thread_state =
    Running
  | Stopped
  | Died exc

text \<open>
  \<^verbatim>\<open>Heartbeater.run\<close> against a script of beats. \<open>Running\<close>: the script is over and the
  thread is in its outer loop; \<open>Stopped\<close>: the event was set, the loop has ended and
  \<^verbatim>\<open>run\<close> has returned; \<open>Died e\<close>: the exception \<open>e\<close> has left \<^verbatim>\<open>run\<close>.
\<close>

fun run_loop ::
  "beat list \<Rightarrow> heartbeater \<Rightarrow> log_event list \<Rightarrow> thread_state \<times> heartbeater \<times> log_event list" where
  "run_loop [] hb lg = (if stop_ev hb then Stopped else Running, hb, lg)"
| "run_loop (r # rs) hb lg =
     (let hb1 = (if stop_called r then stop hb else hb) in
      if stop_ev hb1 then (Stopped, hb1, lg)
      else
        (let lg1 = lg @ [Debug ''Sending heartbeat.''] in
         case schedule r of
           Some e \<Rightarrow> (Died e, hb1, lg1)
         | None \<Rightarrow>
             (case wait_result hb1 (timeouts r) (final r) 0 lg1 of
                (Inl e, lg2) \<Rightarrow> run_loop rs (stop hb1) lg2
              | (Inr u, lg2) \<Rightarrow> run_loop rs (hb1\<lparr>last_ping := clock r\<rparr>) lg2)))"

definition run :: "beat list \<Rightarrow> heartbeater \<Rightarrow> thread_state \<times> heartbeater \<times> log_event list" where
  "run beats hb = run_loop beats hb [Debug ''Starting heartbeat thread.'']"

subsection \<open>WebSocket\<close>

record websocket =
  ws_heartbeater :: "heartbeater option"
  socket :: nat
  close_code :: "int option"

definition WebSocket_init :: "nat \<Rightarrow> websocket" where
  "WebSocket_init sock = \<lparr>ws_heartbeater = None, socket = sock, close_code = None\<rparr>"

text \<open>The property \<^verbatim>\<open>WebSocket.latency\<close>.\<close>

definition ws_latency :: "websocket \<Rightarrow> pyfloat" where
  "ws_latency ws = (case ws_heartbeater ws of Some hb \<Rightarrow> latency hb | None \<Rightarrow> Inf)"

text \<open>
  \<^verbatim>\<open>WebSocket.connect\<close>, a class method. \<open>ws_connect\<close> is what \<^verbatim>\<open>platform.ws_connect()\<close>
  does: an exception or a socket. \<open>ping\<close> is the method \<^verbatim>\<open>ping\<close> of the class \<^verbatim>\<open>cls\<close> that
  is instantiated: \<open>None\<close> when the class has no such method, as \<^verbatim>\<open>WebSocket\<close> itself (no
  class of the repository defines one), so that \<^verbatim>\<open>ws.ping()\<close> raises \<^verbatim>\<open>AttributeError\<close>
  and nothing is sent; otherwise what awaiting the probe does, an exception or nothing.
  The call returns a value, which is the exception of a failed handshake or the
  connection, or it raises. The second component lists, in order, what the call did.
\<close>

datatype connect_event = WsConnect | Log log_event | Ping

datatype connected = ReturnedError exc | ReturnedWebSocket websocket

fun connect ::
  "exc + nat \<Rightarrow> exc option option \<Rightarrow> (exc + connected) \<times> connect_event list" where
  "connect (Inl (WSServerHandshakeError m)) ping =
     (Inr (ReturnedError (WSServerHandshakeError m)),
      [WsConnect, Log (Error (''Failed to connect to websocket: '' @ m))])"
| "connect (Inl e) ping = (Inl e, [WsConnect])"
| "connect (Inr sock) ping =
     (let ws = WebSocket_init sock;
          evs = [WsConnect, Log (Info ''Connected to websocket.'')]
      in case ping of
           None \<Rightarrow> (Inl (AttributeError ''ping''), evs)
         | Some (Some e) \<Rightarrow> (Inl e, evs @ [Ping])
         | Some None \<Rightarrow> (Inr (ReturnedWebSocket ws), evs @ [Ping]))"

section \<open>The entity cache and Mentions.fill (mixins.py)\<close>

type_synonym ident = string

record user =
  user_id :: ident
  user_payload :: json

text \<open>A member, a role or a channel: an entity of one server.\<close>

record server_entity =
  server_id :: ident
  entity_id :: ident
  entity_payload :: json

text \<open>
  Modelled from the spec: the stores behind the cache accessors of the state object, which
  \<^verbatim>\<open>Mentions\<close> calls and \<^verbatim>\<open>HTTPClientBase\<close> under src/ does not define. For each kind the
  identifier determines at most one cached entity (section 3); members, roles and
  channels are identified within their server.
\<close>

record entity_cache =
  users :: "ident \<rightharpoonup> user"
  members :: "ident \<times> ident \<rightharpoonup> server_entity"
  roles :: "ident \<times> ident \<rightharpoonup> server_entity"
  channels :: "ident \<times> ident \<rightharpoonup> server_entity"

text \<open>
  Modelled from the spec: \<^verbatim>\<open>_get_user\<close>, not under src/; section 4.4, a pure lookup by
  identifier that returns the entity or nothing.
\<close>

definition get_user_cached :: "entity_cache \<Rightarrow> ident \<Rightarrow> user option" where
  "get_user_cached c uid = users c uid"

text \<open>Modelled from the spec: \<^verbatim>\<open>_get_server_member\<close>, not under src/; section 4.4, a pure lookup.\<close>

definition get_server_member :: "entity_cache \<Rightarrow> ident \<Rightarrow> ident \<Rightarrow> server_entity option" where
  "get_server_member c sid uid = members c (sid, uid)"

text \<open>
  Modelled from the spec: \<^verbatim>\<open>_get_server_role\<close> and \<^verbatim>\<open>Server.get_role\<close>, not under src/;
  section 4.4, a pure lookup. Both read the roles cached for the server.
\<close>

definition get_server_role :: "entity_cache \<Rightarrow> ident \<Rightarrow> ident \<Rightarrow> server_entity option" where
  "get_server_role c sid rid = roles c (sid, rid)"

text \<open>
  Modelled from the spec: \<^verbatim>\<open>_get_server_channel_or_thread\<close>, not under src/; section 4.4, a
  pure lookup.
\<close>

definition get_server_channel_or_thread ::
  "entity_cache \<Rightarrow> ident \<Rightarrow> ident \<Rightarrow> server_entity option" where
  "get_server_channel_or_thread c sid cid = channels c (sid, cid)"

text \<open>
  Modelled from the spec: \<^verbatim>\<open>add_to_user_cache\<close>, not under src/; section 4.4, the entity is
  stored by its identifier, overwriting any prior entry of the same identifier.
\<close>

definition add_to_user_cache :: "user \<Rightarrow> entity_cache \<Rightarrow> entity_cache" where
  "add_to_user_cache u c = c\<lparr>users := (users c)(user_id u \<mapsto> u)\<rparr>"

text \<open>Modelled from the spec: \<^verbatim>\<open>add_to_member_cache\<close>, not under src/; section 4.4, as above.\<close>

definition add_to_member_cache :: "server_entity \<Rightarrow> entity_cache \<Rightarrow> entity_cache" where
  "add_to_member_cache m c = c\<lparr>members := (members c)((server_id m, entity_id m) \<mapsto> m)\<rparr>"

text \<open>Modelled from the spec: \<^verbatim>\<open>add_to_role_cache\<close>, not under src/; section 4.4, as above.\<close>

definition add_to_role_cache :: "server_entity \<Rightarrow> entity_cache \<Rightarrow> entity_cache" where
  "add_to_role_cache r c = c\<lparr>roles := (roles c)((server_id r, entity_id r) \<mapsto> r)\<rparr>"

text \<open>
  Modelled from the spec: \<^verbatim>\<open>add_to_server_channel_cache\<close>, not under src/; section 4.4, as
  above.
\<close>

definition add_to_server_channel_cache :: "server_entity \<Rightarrow> entity_cache \<Rightarrow> entity_cache" where
  "add_to_server_channel_cache ch c = c\<lparr>channels := (channels c)((server_id ch, entity_id ch) \<mapsto> ch)\<rparr>"

text \<open>
  Modelled from the spec: the fetching calls of \<^verbatim>\<open>Server\<close> and of the state object, not
  under src/ (section 6, the kind-specific calls the core requires of its collaborators).
  Each is an answer of the environment: an exception, or the payload. A call for one
  identifier resolves that identifier (Glossary, Fill): its entity is built from the
  identifier asked for and the payload answered. The calls for a whole collection answer
  with entities of the server.
\<close>

record fetch_env =
  fetch_members :: "ident \<Rightarrow> exc + server_entity list"
  fetch_member :: "ident \<Rightarrow> ident \<Rightarrow> exc + json"
  get_user :: "ident \<Rightarrow> exc + json"
  fetch_roles :: "ident \<Rightarrow> exc + server_entity list"
  fetch_role :: "ident \<Rightarrow> ident \<Rightarrow> exc + json"
  fetch_channel :: "ident \<Rightarrow> ident \<Rightarrow> exc + json"

text \<open>The network calls that \<^verbatim>\<open>fill\<close> issues.\<close>

datatype call =
    FetchMembers
  | FetchMember ident
  | GetUser ident
  | FetchRoles
  | FetchRole ident
  | FetchChannel ident

text \<open>
  A \<^verbatim>\<open>Mentions\<close> object: the server it is attached to (its identifier, or \<open>None\<close> in a DM
  context) and the identifiers of the raw references of each kind, in the order of the
  payload.
\<close>

record mentions =
  m_server :: "ident option"
  m_users :: "ident list"
  m_channels :: "ident list"
  m_roles :: "ident list"
  everyone :: bool
  here :: bool

text \<open>
  The cached object for a user reference: the member of the server when there is a server
  and the member is cached, the user otherwise (\<^verbatim>\<open>_get_server_member(...) or user\<close>).
\<close>

definition cached_user_of ::
  "entity_cache \<Rightarrow> ident option \<Rightarrow> ident \<Rightarrow> (user + server_entity) option" where
  "cached_user_of c srv uid =
     (let usr = map_option Inl (get_user_cached c uid) in
      case srv of
        Some sid \<Rightarrow>
          (case get_server_member c sid uid of
             Some m \<Rightarrow> Some (Inr m)
           | None \<Rightarrow> usr)
      | None \<Rightarrow> usr)"

text \<open>The properties \<^verbatim>\<open>Mentions.users\<close> and \<^verbatim>\<open>Mentions.roles\<close>.\<close>

definition Mentions_users :: "entity_cache \<Rightarrow> mentions \<Rightarrow> (user + server_entity) list" where
  "Mentions_users c m = List.map_filter (cached_user_of c (m_server m)) (m_users m)"

definition Mentions_roles :: "entity_cache \<Rightarrow> mentions \<Rightarrow> server_entity list" where
  "Mentions_roles c m =
     (case m_server m of
        None \<Rightarrow> []
      | Some sid \<Rightarrow> List.map_filter (get_server_role c sid) (m_roles m))"

text \<open>The state that \<^verbatim>\<open>fill\<close> threads: the cache, and the calls issued so far.\<close>

record fill_state =
  cache :: entity_cache
  calls :: "call list"

definition issue :: "call \<Rightarrow> fill_state \<Rightarrow> fill_state" where
  "issue cl st = st\<lparr>calls := calls st @ [cl]\<rparr>"

text \<open>
  \<^verbatim>\<open>except HTTPException: if not ignore_errors: raise\<close>: the exception is swallowed when it
  is an \<^verbatim>\<open>HTTPException\<close> and \<^verbatim>\<open>ignore_errors\<close> is set; any other exception propagates.
\<close>

definition swallowed :: "bool \<Rightarrow> exc \<Rightarrow> bool" where
  "swallowed ignore_errors e = (isinstance_HTTPException e \<and> ignore_errors)"

text \<open>
  The bulk path for users: one call of \<^verbatim>\<open>fetch_members\<close>, outside any \<^verbatim>\<open>try\<close>, then the
  members that are referenced go to the cache. The first component of the result is the
  exception that leaves \<^verbatim>\<open>fill\<close>, if any.
\<close>

definition fill_users_bulk ::
  "fetch_env \<Rightarrow> ident \<Rightarrow> ident list \<Rightarrow> fill_state \<Rightarrow> exc option \<times> fill_state" where
  "fill_users_bulk env sid user_ids st =
     (let st1 = issue FetchMembers st in
      case fetch_members env sid of
        Inl e \<Rightarrow> (Some e, st1)
      | Inr ms \<Rightarrow>
          (None, st1\<lparr>cache :=
             foldl (\<lambda>c member. if entity_id member \<in> set user_ids
                                then add_to_member_cache member c else c)
                   (cache st1) ms\<rparr>))"

text \<open>The individual path for users: the loop over the references.\<close>

fun fill_users_each ::
  "fetch_env \<Rightarrow> bool \<Rightarrow> bool \<Rightarrow> ident option \<Rightarrow> ident list \<Rightarrow> fill_state
     \<Rightarrow> exc option \<times> fill_state" where
  "fill_users_each env ignore_cache ignore_errors srv [] st = (None, st)"
| "fill_users_each env ignore_cache ignore_errors srv (uid # rest) st =
     (let cached_user = cached_user_of (cache st) srv uid in
      if ignore_cache \<or> cached_user = None then
        (case srv of
           Some sid \<Rightarrow>
             (let st1 = issue (FetchMember uid) st in
              case fetch_member env sid uid of
                Inl e \<Rightarrow>
                  if swallowed ignore_errors e
                  then fill_users_each env ignore_cache ignore_errors srv rest st1
                  else (Some e, st1)
              | Inr p \<Rightarrow>
                  fill_users_each env ignore_cache ignore_errors srv rest
                    (st1\<lparr>cache := add_to_member_cache
                       \<lparr>server_id = sid, entity_id = uid, entity_payload = p\<rparr> (cache st1)\<rparr>))
         | None \<Rightarrow>
             (let st1 = issue (GetUser uid) st in
              case get_user env uid of
                Inl e \<Rightarrow>
                  if swallowed ignore_errors e
                  then fill_users_each env ignore_cache ignore_errors srv rest st1
                  else (Some e, st1)
              | Inr p \<Rightarrow>
                  fill_users_each env ignore_cache ignore_errors srv rest
                    (st1\<lparr>cache := add_to_user_cache
                       \<lparr>user_id = uid, user_payload = p\<rparr> (cache st1)\<rparr>)))
      else fill_users_each env ignore_cache ignore_errors srv rest st)"

text \<open>The user part of \<^verbatim>\<open>fill\<close>: the choice between the two paths.\<close>

definition fill_users ::
  "fetch_env \<Rightarrow> bool \<Rightarrow> bool \<Rightarrow> mentions \<Rightarrow> fill_state \<Rightarrow> exc option \<times> fill_state" where
  "fill_users env ignore_cache ignore_errors m st =
     (let uncached_user_count =
            int (length (m_users m)) - int (length (Mentions_users (cache st) m))
      in case m_server m of
           Some sid \<Rightarrow>
             if uncached_user_count \<ge> 5 \<or> (length (m_users m) \<ge> 5 \<and> ignore_cache)
             then fill_users_bulk env sid (m_users m) st
             else fill_users_each env ignore_cache ignore_errors (m_server m) (m_users m) st
         | None \<Rightarrow> fill_users_each env ignore_cache ignore_errors (m_server m) (m_users m) st)"

text \<open>The bulk path for roles: one call of \<^verbatim>\<open>fetch_roles\<close>, outside any \<^verbatim>\<open>try\<close>.\<close>

definition fill_roles_bulk ::
  "fetch_env \<Rightarrow> ident \<Rightarrow> ident list \<Rightarrow> fill_state \<Rightarrow> exc option \<times> fill_state" where
  "fill_roles_bulk env sid role_ids st =
     (let st1 = issue FetchRoles st in
      case fetch_roles env sid of
        Inl e \<Rightarrow> (Some e, st1)
      | Inr rs \<Rightarrow>
          (None, st1\<lparr>cache :=
             foldl (\<lambda>c role. if entity_id role \<in> set role_ids
                              then add_to_role_cache role c else c)
                   (cache st1) rs\<rparr>))"

text \<open>
  The individual path for roles. The lookup \<^verbatim>\<open>self._server.id\<close> comes before the test of
  \<^verbatim>\<open>self._server\<close>: without a server it raises \<^verbatim>\<open>AttributeError\<close>.
\<close>

fun fill_roles_each ::
  "fetch_env \<Rightarrow> bool \<Rightarrow> bool \<Rightarrow> ident option \<Rightarrow> ident list \<Rightarrow> fill_state
     \<Rightarrow> exc option \<times> fill_state" where
  "fill_roles_each env ignore_cache ignore_errors srv [] st = (None, st)"
| "fill_roles_each env ignore_cache ignore_errors srv (rid # rest) st =
     (case srv of
        None \<Rightarrow> (Some (AttributeError ''id''), st)
      | Some sid \<Rightarrow>
          (let cached_role = get_server_role (cache st) sid rid in
           if ignore_cache \<or> cached_role = None then
             (let st1 = issue (FetchRole rid) st in
              case fetch_role env sid rid of
                Inl e \<Rightarrow>
                  if swallowed ignore_errors e
                  then fill_roles_each env ignore_cache ignore_errors srv rest st1
                  else (Some e, st1)
              | Inr p \<Rightarrow>
                  fill_roles_each env ignore_cache ignore_errors srv rest
                    (st1\<lparr>cache := add_to_role_cache
                       \<lparr>server_id = sid, entity_id = rid, entity_payload = p\<rparr> (cache st1)\<rparr>))
           else fill_roles_each env ignore_cache ignore_errors srv rest st))"

definition fill_roles ::
  "fetch_env \<Rightarrow> bool \<Rightarrow> bool \<Rightarrow> mentions \<Rightarrow> fill_state \<Rightarrow> exc option \<times> fill_state" where
  "fill_roles env ignore_cache ignore_errors m st =
     (let uncached_role_count =
            int (length (m_roles m)) - int (length (Mentions_roles (cache st) m))
      in case m_server m of
           Some sid \<Rightarrow>
             if uncached_role_count \<ge> 5 \<or> (length (m_roles m) \<ge> 5 \<and> ignore_cache)
             then fill_roles_bulk env sid (m_roles m) st
             else fill_roles_each env ignore_cache ignore_errors (m_server m) (m_roles m) st
         | None \<Rightarrow> fill_roles_each env ignore_cache ignore_errors (m_server m) (m_roles m) st)"

text \<open>
  The channel part of \<^verbatim>\<open>fill\<close>: one loop over the references, which ends at once when
  there is no server. There is no other path for channels.
\<close>

fun fill_channels ::
  "fetch_env \<Rightarrow> bool \<Rightarrow> bool \<Rightarrow> ident option \<Rightarrow> ident list \<Rightarrow> fill_state
     \<Rightarrow> exc option \<times> fill_state" where
  "fill_channels env ignore_cache ignore_errors srv [] st = (None, st)"
| "fill_channels env ignore_cache ignore_errors srv (cid # rest) st =
     (case srv of
        None \<Rightarrow> (None, st)
      | Some sid \<Rightarrow>
          (let cached_channel = get_server_channel_or_thread (cache st) sid cid in
           if ignore_cache \<or> cached_channel = None then
             (let st1 = issue (FetchChannel cid) st in
              case fetch_channel env sid cid of
                Inl e \<Rightarrow>
                  if swallowed ignore_errors e
                  then fill_channels env ignore_cache ignore_errors srv rest st1
                  else (Some e, st1)
              | Inr p \<Rightarrow>
                  fill_channels env ignore_cache ignore_errors srv rest
                    (st1\<lparr>cache := add_to_server_channel_cache
                       \<lparr>server_id = sid, entity_id = cid, entity_payload = p\<rparr> (cache st1)\<rparr>))
           else fill_channels env ignore_cache ignore_errors srv rest st))"

text \<open>
  \<^verbatim>\<open>Mentions.fill\<close>: users, then roles, then channels; an exception that leaves one part
  leaves \<^verbatim>\<open>fill\<close>. The result is the exception raised (or \<open>None\<close> when \<^verbatim>\<open>fill\<close> returns)
  with the cache and the calls issued.
\<close>

definition fill ::
  "fetch_env \<Rightarrow> bool \<Rightarrow> bool \<Rightarrow> mentions \<Rightarrow> entity_cache \<Rightarrow> exc option \<times> fill_state" where
  "fill env ignore_cache ignore_errors m c =
     (case fill_users env ignore_cache ignore_errors m \<lparr>cache = c, calls = []\<rparr> of
        (Some e, st1) \<Rightarrow> (Some e, st1)
      | (None, st1) \<Rightarrow>
          (case fill_roles env ignore_cache ignore_errors m st1 of
             (Some e, st2) \<Rightarrow> (Some e, st2)
           | (None, st2) \<Rightarrow>
               fill_channels env ignore_cache ignore_errors (m_server m) (m_channels m) st2))"

section \<open>The message cache of HTTPClientBase (http.py)\<close>

text \<open>
  A Python \<^verbatim>\<open>dict\<close> as the list of its items in insertion order, with distinct keys.
  \<^verbatim>\<open>d[k] = v\<close> replaces the value of a key that is present, in its place, and appends a
  new key at the end.
\<close>

fun dict_set :: "'k \<Rightarrow> 'v \<Rightarrow> ('k \<times> 'v) list \<Rightarrow> ('k \<times> 'v) list" where
  "dict_set k v [] = [(k, v)]"
| "dict_set k v ((k', v') # d) = (if k' = k then (k, v) # d else (k', v') # dict_set k v d)"

record message =
  message_id :: ident
  message_payload :: json

text \<open>
  The attributes of \<^verbatim>\<open>HTTPClientBase\<close> that concern the message cache, and the token.
  \<^verbatim>\<open>max_messages\<close> is an \<^verbatim>\<open>Optional[int]\<close>, \<^verbatim>\<open>_messages\<close> a dict.
\<close>

record http_client =
  max_messages :: "int option"
  token :: "string option"
  messages :: "(ident \<times> message) list"

text \<open>\<^verbatim>\<open>HTTPClientBase.__init__\<close>; the default of \<^verbatim>\<open>max_messages\<close> is 1000.\<close>

definition HTTPClientBase_init :: "int option \<Rightarrow> http_client" where
  "HTTPClientBase_init max_msgs = \<lparr>max_messages = max_msgs, token = None, messages = []\<rparr>"

definition default_max_messages :: "int option" where
  "default_max_messages = Some 1000"

text \<open>
  Modelled from the spec: the eviction of the message cache, for which src/ has the
  capacity and the dict but no code. Section 3: insertion beyond capacity evicts the
  oldest-inserted entry, in insertion order.
\<close>

fun evict :: "int \<Rightarrow> (ident \<times> message) list \<Rightarrow> (ident \<times> message) list" where
  "evict cap [] = []"
| "evict cap (x # xs) = (if int (length (x # xs)) > cap then evict cap xs else x # xs)"

text \<open>
  Modelled from the spec: \<^verbatim>\<open>create_message\<close>, the insertion into the message cache, not
  under src/. Section 4.4: the entity is stored by its identifier, overwriting any prior
  entry of the same identifier, and returned; message insertion enforces the capacity.
  Without a configured capacity there is nothing to enforce.
\<close>

definition create_message :: "message \<Rightarrow> http_client \<Rightarrow> message \<times> http_client" where
  "create_message msg c =
     (let stored = dict_set (message_id msg) msg (messages c) in
      case max_messages c of
        None \<Rightarrow> (msg, c\<lparr>messages := stored\<rparr>)
      | Some cap \<Rightarrow> (msg, c\<lparr>messages := evict cap stored\<rparr>))"

text \<open>Modelled from the spec: \<^verbatim>\<open>get_message\<close>, not under src/; section 4.4, a pure lookup.\<close>

definition get_message :: "http_client \<Rightarrow> ident \<Rightarrow> message option" where
  "get_message c mid = map_of (messages c) mid"

text \<open>A sequence of insertions, one after the other.\<close>

fun create_messages :: "message list \<Rightarrow> http_client \<Rightarrow> http_client" where
  "create_messages [] c = c"
| "create_messages (msg # msgs) c = create_messages msgs (snd (create_message msg c))"

section \<open>handle\_message\_parameters (http.py)\<close>

text \<open>An argument whose default is the sentinel \<^verbatim>\<open>MISSING\<close> (utils.py).\<close>

datatype 'a arg = MISSING | Given 'a

record File =
  fp :: string
  filename :: "string option"

text \<open>
  The arguments of \<^verbatim>\<open>handle_message_parameters\<close>. The type \<open>'e\<close> is \<^verbatim>\<open>Embed\<close>, whose
  module is not under src/; its \<^verbatim>\<open>to_dict\<close> is a parameter of the function.
\<close>

record 'e message_args =
  a_content :: "string option arg"
  a_username :: "string arg"
  a_avatar_url :: "string arg"
  a_file :: "File arg"
  a_files :: "File list arg"
  a_embed :: "'e option arg"
  a_embeds :: "'e list arg"
  a_reply_to :: "string list arg"
  a_silent :: "bool option"
  a_private :: "bool option"
  a_hide_preview_urls :: "string list arg"

text \<open>One entry of the multipart list: the JSON payload, or a file.\<close>

datatype part =
    PayloadPart string string
  | FilePart string string "string option"

record multipart_parameters =
  mp_payload :: "(string \<times> json) list option"
  mp_multipart :: "part list"
  mp_files :: "File list arg"

text \<open>\<^verbatim>\<open>str\<close> of a natural number, for the names \<^verbatim>\<open>files[0]\<close>, \<^verbatim>\<open>files[1]\<close>, ...\<close>

fun str_nat :: "nat \<Rightarrow> string" where
  "str_nat n =
     (if n < 10 then [char_of (48 + n)]
      else str_nat (n div 10) @ [char_of (48 + n mod 10)])"

text \<open>Truthiness: \<^verbatim>\<open>MISSING\<close> is false, and so is an empty string or list.\<close>

fun truthy :: "'a list arg \<Rightarrow> bool" where
  "truthy MISSING = False"
| "truthy (Given xs) = (xs \<noteq> [])"

text \<open>The payload, filled key by key in the order of the source.\<close>

definition build_payload :: "('e \<Rightarrow> json) \<Rightarrow> 'e message_args \<Rightarrow> (string \<times> json) list" where
  "build_payload to_dict a =
     (let payload = [];
          payload = (case a_embeds a of
                       Given es \<Rightarrow> dict_set ''embeds'' (JArr (map to_dict es)) payload
                     | MISSING \<Rightarrow> payload);
          payload = (case a_embed a of
                       Given None \<Rightarrow> dict_set ''embeds'' (JArr []) payload
                     | Given (Some e) \<Rightarrow> dict_set ''embeds'' (JArr [to_dict e]) payload
                     | MISSING \<Rightarrow> payload);
          payload = (case a_content a of
                       Given (Some c) \<Rightarrow> dict_set ''content'' (JStr c) payload
                     | Given None \<Rightarrow> dict_set ''content'' JNull payload
                     | MISSING \<Rightarrow> payload);
          payload = (case a_reply_to a of
                       Given ids \<Rightarrow> dict_set ''replyMessageIds'' (JArr (map JStr ids)) payload
                     | MISSING \<Rightarrow> payload);
          payload = (case a_silent a of
                       Some b \<Rightarrow> dict_set ''isSilent'' (JBool b) payload
                     | None \<Rightarrow> payload);
          payload = (case a_private a of
                       Some b \<Rightarrow> dict_set ''isPrivate'' (JBool b) payload
                     | None \<Rightarrow> payload);
          payload = (case a_hide_preview_urls a of
                       Given urls \<Rightarrow> dict_set ''hiddenLinkPreviewUrls'' (JArr (map JStr urls)) payload
                     | MISSING \<Rightarrow> payload);
          payload = (if truthy (a_username a)
                     then (case a_username a of
                             Given u \<Rightarrow> dict_set ''username'' (JStr u) payload
                           | MISSING \<Rightarrow> payload)
                     else payload);
          payload = (if truthy (a_avatar_url a)
                     then (case a_avatar_url a of
                             Given u \<Rightarrow> dict_set ''avatar_url'' (JStr u) payload
                           | MISSING \<Rightarrow> payload)
                     else payload)
      in payload)"

text \<open>
  \<^verbatim>\<open>handle_message_parameters\<close>: the two checks of mixed arguments, the check of the
  number of embeds, then the payload and the multipart list. \<open>json_dumps\<close> is
  \<^verbatim>\<open>json.dumps\<close>.
\<close>

definition handle_message_parameters ::
  "('e \<Rightarrow> json) \<Rightarrow> (json \<Rightarrow> string) \<Rightarrow> 'e message_args \<Rightarrow> exc + multipart_parameters" where
  "handle_message_parameters to_dict json_dumps a =
     (if a_files a \<noteq> MISSING \<and> a_file a \<noteq> MISSING
      then Inl (TypeError ''Cannot mix file and files keyword arguments.'')
      else if a_embeds a \<noteq> MISSING \<and> a_embed a \<noteq> MISSING
      then Inl (TypeError ''Cannot mix embed and embeds keyword arguments.'')
      else
        (let fs = (case a_file a of Given f \<Rightarrow> Given [f] | MISSING \<Rightarrow> a_files a) in
         if (case a_embeds a of Given es \<Rightarrow> length es > 10 | MISSING \<Rightarrow> False)
         then Inl (ValueError ''embeds has a maximum of 10 elements.'')
         else
           (let payload = build_payload to_dict a in
            case fs of
              Given (f # more_files) \<Rightarrow>
                Inr \<lparr>mp_payload = None,
                     mp_multipart =
                       PayloadPart ''payload_json'' (json_dumps (JObj payload))
                       # map (\<lambda>(index, fl). FilePart (''files['' @ str_nat index @ '']'')
                                                (fp fl) (filename fl))
                             (List.enumerate 0 (f # more_files)),
                     mp_files = fs\<rparr>
            | _ \<Rightarrow> Inr \<lparr>mp_payload = Some payload, mp_multipart = [], mp_files = fs\<rparr>)))"

section \<open>Concrete scenarios\<close>

text \<open>A response with a status, no headers and an empty body.\<close>

definition plain_response :: "int \<Rightarrow> response" where
  "plain_response code =
     \<lparr>status = code, headers = [], body_bytes = Some [], body_text = Some []\<rparr>"

text \<open>A response with a status, the content type of JSON and an empty body.\<close>

definition json_response :: "int \<Rightarrow> response" where
  "json_response code =
     \<lparr>status = code, headers = [(''content-type'', ''application/json'')],
      body_bytes = Some [], body_text = Some []\<rparr>"

text \<open>A session that plays a list of attempts, one for each call, and then fails.\<close>

definition script :: "attempt list \<Rightarrow> nat \<Rightarrow> attempt" where
  "script as n = (if n < length as then as ! n else Raises (OtherError ''end of script''))"

text \<open>
  Two decoders: one that decodes every text, and one that fails on the empty text, as
  \<^verbatim>\<open>json.loads\<close> does. And a \<^verbatim>\<open>float\<close> that reads every header.
\<close>

definition no_json :: "string \<Rightarrow> json option" where
  "no_json s = Some JNull"

definition json_fails_on_empty :: "string \<Rightarrow> json option" where
  "json_fails_on_empty s = (if s = [] then None else Some (JStr s))"

definition no_float :: "string \<Rightarrow> real option" where
  "no_float s = Some 0"

text \<open>One successful probe of the heartbeat thread, completed at clock reading \<open>t\<close>.\<close>

definition probe :: "real \<Rightarrow> beat" where
  "probe t = \<lparr>stop_called = False, schedule = None, timeouts = [], final = None, clock = t\<rparr>"

section \<open>Scenarios and vocabulary for Mentions.fill\<close>

text \<open>A cache that holds nothing.\<close>

definition empty_cache :: entity_cache where
  "empty_cache = \<lparr>users = Map.empty, members = Map.empty, roles = Map.empty, channels = Map.empty\<rparr>"

text \<open>An environment in which every fetching call raises the given exception.\<close>

definition failing_env :: "exc \<Rightarrow> fetch_env" where
  "failing_env e =
     \<lparr>fetch_members = (\<lambda>sid. Inl e), fetch_member = (\<lambda>sid uid. Inl e),
      get_user = (\<lambda>uid. Inl e), fetch_roles = (\<lambda>sid. Inl e),
      fetch_role = (\<lambda>sid rid. Inl e), fetch_channel = (\<lambda>sid cid. Inl e)\<rparr>"

text \<open>
  An environment in which every fetching call answers: a call for one identifier with an
  empty payload, a call for a collection with one entity.
\<close>

definition answering_env :: fetch_env where
  "answering_env =
     \<lparr>fetch_members =
        (\<lambda>sid. Inr [\<lparr>server_id = sid, entity_id = ''u1'', entity_payload = JNull\<rparr>]),
      fetch_member = (\<lambda>sid uid. Inr JNull),
      get_user = (\<lambda>uid. Inr JNull),
      fetch_roles =
        (\<lambda>sid. Inr [\<lparr>server_id = sid, entity_id = ''r1'', entity_payload = JNull\<rparr>]),
      fetch_role = (\<lambda>sid rid. Inr JNull), fetch_channel = (\<lambda>sid cid. Inr JNull)\<rparr>"

text \<open>The \<^verbatim>\<open>Mentions\<close> object of a payload without \<^verbatim>\<open>everyone\<close> and \<^verbatim>\<open>here\<close>.\<close>

definition mentions_of :: "ident option \<Rightarrow> ident list \<Rightarrow> ident list \<Rightarrow> ident list \<Rightarrow> mentions" where
  "mentions_of srv us cs rs =
     \<lparr>m_server = srv, m_users = us, m_channels = cs, m_roles = rs, everyone = False, here = False\<rparr>"

text \<open>The calls of \<^verbatim>\<open>fill\<close> by the kind of reference they serve.\<close>

fun is_user_call :: "call \<Rightarrow> bool" where
  "is_user_call FetchMembers = True"
| "is_user_call (FetchMember _) = True"
| "is_user_call (GetUser _) = True"
| "is_user_call _ = False"

fun is_role_call :: "call \<Rightarrow> bool" where
  "is_role_call FetchRoles = True"
| "is_role_call (FetchRole _) = True"
| "is_role_call _ = False"

fun is_channel_call :: "call \<Rightarrow> bool" where
  "is_channel_call (FetchChannel _) = True"
| "is_channel_call _ = False"

text \<open>
  An answer after which the loop over the references goes on: a payload, or an exception
  that is swallowed.
\<close>

definition continues :: "bool \<Rightarrow> exc + 'a \<Rightarrow> bool" where
  "continues ignore_errors answer =
     (case answer of Inl e \<Rightarrow> swallowed ignore_errors e | Inr p \<Rightarrow> True)"

text \<open>
  The individual fetch for a user reference and the call it issues: \<^verbatim>\<open>fetch_member\<close> of the
  server, or \<^verbatim>\<open>get_user\<close> of the state when there is no server.
\<close>

definition fetch_user :: "fetch_env \<Rightarrow> ident option \<Rightarrow> ident \<Rightarrow> exc + json" where
  "fetch_user env srv uid =
     (case srv of Some sid \<Rightarrow> fetch_member env sid uid | None \<Rightarrow> get_user env uid)"

definition user_call :: "ident option \<Rightarrow> ident \<Rightarrow> call" where
  "user_call srv uid = (case srv of Some sid \<Rightarrow> FetchMember uid | None \<Rightarrow> GetUser uid)"

section \<open>Scenarios for the message cache and the message parameters\<close>

text \<open>
  A client at its capacity of 1000 messages, with the identifiers \<open>m\<close>, \<open>mm\<close>, \<open>mmm\<close>, ...
  in the order of insertion, and a message that is not among them.
\<close>

definition numbered_message :: "nat \<Rightarrow> message" where
  "numbered_message n = \<lparr>message_id = replicate (Suc n) CHR ''m'', message_payload = JNum (int n)\<rparr>"

definition full_client :: http_client where
  "full_client =
     \<lparr>max_messages = Some 1000, token = None,
      messages = map (\<lambda>n. (message_id (numbered_message n), numbered_message n)) [0..<1000]\<rparr>"

definition new_message :: message where
  "new_message = \<lparr>message_id = ''new'', message_payload = JNull\<rparr>"

text \<open>
  A call of \<^verbatim>\<open>handle_message_parameters\<close> without arguments, an \<^verbatim>\<open>Embed\<close> type of one
  element with its \<^verbatim>\<open>to_dict\<close>, a \<^verbatim>\<open>json.dumps\<close> and a file.
\<close>

definition no_args :: "unit message_args" where
  "no_args =
     \<lparr>a_content = MISSING, a_username = MISSING, a_avatar_url = MISSING, a_file = MISSING,
      a_files = MISSING, a_embed = MISSING, a_embeds = MISSING, a_reply_to = MISSING,
      a_silent = None, a_private = None, a_hide_preview_urls = MISSING\<rparr>"

definition unit_to_dict :: "unit \<Rightarrow> json" where
  "unit_to_dict e = JObj []"

definition no_dumps :: "json \<Rightarrow> string" where
  "no_dumps j = ''{}''"

definition some_file :: File where
  "some_file = \<lparr>fp = ''bytes'', filename = Some ''a.png''\<rparr>"

section \<open>Properties of HTTPClientBase.request\<close>

lemma attempts_request_loop:
  "attempts (snd (request_loop jl fl session ts st)) \<le> attempts st + length ts"
proof (induction ts arbitrary: st)
  case Nil
  then show ?case by (simp add: out_of_retries_def split: option.splits)
next
  case (Cons t ts)
  show ?case
    apply (simp add: Let_def do_sleep_def split: attempt.splits exc.splits sum.splits option.splits)
    apply (intro conjI impI allI)
    apply (auto intro!: order_trans[OF Cons.IH] simp: do_sleep_def)
    done
qed

text \<open>
  One pass of the loop on a response with a retried status whose body is read: the call
  sleeps the backoff delay and goes on with the next attempt.
\<close>

lemma request_loop_retried:
  assumes "session t = Responds r" and "status r \<in> {500, 502, 504, 524}"
    and "read_data jl r = Inr d"
  shows "request_loop jl fl session (t # rest) st
    = request_loop jl fl session rest
        (st\<lparr>attempts := Suc (attempts st), last_response := Some r, last_data := d,
            sleeps := sleeps st @ [backoff t]\<rparr>)"
  using assms by (auto simp add: Let_def do_sleep_def)

text \<open>
  The last pass of the loop on a response with a status of at least 500 whose body is
  read: \<^verbatim>\<open>PlatformServerError\<close> with that response, raised in the loop or after it.
\<close>

lemma request_loop_last_5xx:
  assumes "session t = Responds r" and "500 \<le> status r" and "read_data jl r = Inr d"
  shows "fst (request_loop jl fl session [t] st) = Inl (PlatformServerError r d)
    \<and> attempts (snd (request_loop jl fl session [t] st)) = Suc (attempts st)"
  using assms by (auto simp add: Let_def do_sleep_def out_of_retries_def)

text \<open>
  C1, as stated, at 503, 503, 201: the status 503 is not in the set that \<^verbatim>\<open>request\<close>
  retries, so the first response already raises \<^verbatim>\<open>PlatformServerError\<close>; there is one
  attempt, no sleep and no success.
\<close>

theorem C1_counterexample_503_not_retried:
  "request no_json no_float
     (script [Responds (plain_response 503), Responds (plain_response 503),
              Responds (plain_response 201)])
   = (Inl (PlatformServerError (plain_response 503) (Text [])),
      \<lparr>last_response = Some (plain_response 503), last_data = Text [],
       sleeps = [], attempts = 1\<rparr>)"
  by (simp add: request_def request_init_def script_def plain_response_def Let_def read_data_def
      json_or_text_def headers_get_def)

text \<open>
  C1, amended: when the server answers attempts 1 and 2 with a status among 500, 502, 504
  and 524 and attempt 3 with 201, and the body of each of the three responses is read and
  decoded without an exception, \<^verbatim>\<open>request\<close> returns the decoded body of the third
  response after exactly three attempts, and it has slept the first two backoff delays,
  1 and 3, between them: 4 time units in all.
\<close>

theorem C1_retry_then_success:
  assumes "session 0 = Responds r0" "status r0 \<in> {500, 502, 504, 524}" "read_data jl r0 = Inr d0"
    and "session 1 = Responds r1" "status r1 \<in> {500, 502, 504, 524}" "read_data jl r1 = Inr d1"
    and "session 2 = Responds r2" "status r2 = 201" "read_data jl r2 = Inr d2"
  shows "fst (request jl fl session) = Inr d2
    \<and> sleeps (snd (request jl fl session)) = [backoff 0, backoff 1]
    \<and> sum_list (sleeps (snd (request jl fl session))) = 4
    \<and> attempts (snd (request jl fl session)) = 3"
proof -
  let ?st1 = "request_init\<lparr>attempts := Suc (attempts request_init), last_response := Some r0,
      last_data := d0, sleeps := sleeps request_init @ [backoff 0]\<rparr>"
  let ?st2 = "?st1\<lparr>attempts := Suc (attempts ?st1), last_response := Some r1,
      last_data := d1, sleeps := sleeps ?st1 @ [backoff 1]\<rparr>"
  note e0 = request_loop_retried [where session = session and t = 0 and fl = fl
      and rest = "[1, 2, 3, 4]" and st = request_init, OF assms(1-3)]
  note e1 = request_loop_retried [where session = session and t = 1 and fl = fl
      and rest = "[2, 3, 4]" and st = ?st1, OF assms(4-6)]
  have "request jl fl session = request_loop jl fl session [2, 3, 4] ?st2"
    by (simp only: request_def e0 e1)
  then show ?thesis
    using assms(7-9) by (simp add: Let_def backoff_def request_init_def)
qed

theorem C1_retry_then_success_witness:
  "fst (request json_fails_on_empty no_float
        (script [Responds (plain_response 502), Responds (plain_response 524),
                 Responds (plain_response 201)])) = Inr (Text [])
   \<and> sleeps (snd (request json_fails_on_empty no_float
        (script [Responds (plain_response 502), Responds (plain_response 524),
                 Responds (plain_response 201)]))) = [backoff 0, backoff 1]
   \<and> sum_list (sleeps (snd (request json_fails_on_empty no_float
        (script [Responds (plain_response 502), Responds (plain_response 524),
                 Responds (plain_response 201)])))) = 4"
proof -
  let ?s = "script [Responds (plain_response 502), Responds (plain_response 524),
                    Responds (plain_response 201)]"
  have h0: "?s 0 = Responds (plain_response 502)" by (simp add: script_def)
  have h1: "?s 1 = Responds (plain_response 524)" by (simp add: script_def)
  have h2: "?s 2 = Responds (plain_response 201)" by (simp add: script_def)
  have s0: "status (plain_response 502) \<in> {500, 502, 504, 524}" by (simp add: plain_response_def)
  have s1: "status (plain_response 524) \<in> {500, 502, 504, 524}" by (simp add: plain_response_def)
  have s2: "status (plain_response 201) = 201" by (simp add: plain_response_def)
  have d: "read_data json_fails_on_empty (plain_response c) = Inr (Text [])" for c
    by (simp add: read_data_def json_or_text_def headers_get_def plain_response_def)
  from C1_retry_then_success [OF h0 s0 d h1 s1 d h2 s2 d, of no_float]
  show ?thesis by blast
qed

text \<open>
  C5, as stated, at five answers with status 500, the fifth with the content type of JSON
  and an empty body: the fifth body is decoded before the status is tested,
  \<^verbatim>\<open>json.loads\<close> raises, and \<^verbatim>\<open>JSONDecodeError\<close> leaves \<^verbatim>\<open>request\<close> instead of
  \<^verbatim>\<open>PlatformServerError\<close>.
\<close>

theorem C5_counterexample_undecodable_body:
  "fst (request json_fails_on_empty no_float
     (script [Responds (plain_response 500), Responds (plain_response 500),
              Responds (plain_response 500), Responds (plain_response 500),
              Responds (json_response 500)])) = Inl (JSONDecodeError [])
   \<and> attempts (snd (request json_fails_on_empty no_float
     (script [Responds (plain_response 500), Responds (plain_response 500),
              Responds (plain_response 500), Responds (plain_response 500),
              Responds (json_response 500)]))) = 5"
  by (simp add: request_def request_init_def script_def plain_response_def json_response_def
      Let_def read_data_def json_or_text_def headers_get_def json_fails_on_empty_def do_sleep_def)

text \<open>
  C5, amended: no execution of \<^verbatim>\<open>request\<close> makes more than 5 attempts. An execution makes
  5 attempts that all yield 5xx responses when the first four have a retried status
  (500, 502, 504, 524) and the fifth any 5xx status; when moreover the body of each of the
  five responses is read and decoded without an exception, the call raises
  \<^verbatim>\<open>PlatformServerError\<close> carrying the fifth response and its data, after exactly 5 attempts.
\<close>

theorem C5_five_attempts_server_error:
  "attempts (snd (request jl fl session)) \<le> 5
   \<and> ((\<forall>i<4. \<exists>r d. session i = Responds r \<and> status r \<in> {500, 502, 504, 524}
              \<and> read_data jl r = Inr d)
       \<and> session 4 = Responds r4 \<and> 500 \<le> status r4 \<and> status r4 < 600
       \<and> read_data jl r4 = Inr d4
      \<longrightarrow> fst (request jl fl session) = Inl (PlatformServerError r4 d4)
        \<and> attempts (snd (request jl fl session)) = 5)"
proof (intro conjI impI)
  show "attempts (snd (request jl fl session)) \<le> 5"
    using attempts_request_loop [of jl fl session "[0, 1, 2, 3, 4]" request_init]
    by (simp add: request_def request_init_def)
next
  assume h: "(\<forall>i<4. \<exists>r d. session i = Responds r \<and> status r \<in> {500, 502, 504, 524}
              \<and> read_data jl r = Inr d)
       \<and> session 4 = Responds r4 \<and> 500 \<le> status r4 \<and> status r4 < 600
       \<and> read_data jl r4 = Inr d4"
  then have all: "\<forall>i<4. \<exists>r d. session i = Responds r \<and> status r \<in> {500, 502, 504, 524}
              \<and> read_data jl r = Inr d"
    by blast
  obtain r0 d0 where r0: "session 0 = Responds r0" "status r0 \<in> {500, 502, 504, 524}"
      "read_data jl r0 = Inr d0"
    using all [rule_format, of 0] by auto
  obtain r1 d1 where r1: "session 1 = Responds r1" "status r1 \<in> {500, 502, 504, 524}"
      "read_data jl r1 = Inr d1"
    using all [rule_format, of 1] by auto
  obtain r2 d2 where r2: "session 2 = Responds r2" "status r2 \<in> {500, 502, 504, 524}"
      "read_data jl r2 = Inr d2"
    using all [rule_format, of 2] by auto
  obtain r3 d3 where r3: "session 3 = Responds r3" "status r3 \<in> {500, 502, 504, 524}"
      "read_data jl r3 = Inr d3"
    using all [rule_format, of 3] by auto
  have r4: "session 4 = Responds r4" "500 \<le> status r4" "read_data jl r4 = Inr d4"
    using h by auto
  let ?st1 = "request_init\<lparr>attempts := Suc (attempts request_init), last_response := Some r0,
      last_data := d0, sleeps := sleeps request_init @ [backoff 0]\<rparr>"
  let ?st2 = "?st1\<lparr>attempts := Suc (attempts ?st1), last_response := Some r1,
      last_data := d1, sleeps := sleeps ?st1 @ [backoff 1]\<rparr>"
  let ?st3 = "?st2\<lparr>attempts := Suc (attempts ?st2), last_response := Some r2,
      last_data := d2, sleeps := sleeps ?st2 @ [backoff 2]\<rparr>"
  let ?st4 = "?st3\<lparr>attempts := Suc (attempts ?st3), last_response := Some r3,
      last_data := d3, sleeps := sleeps ?st3 @ [backoff 3]\<rparr>"
  note e0 = request_loop_retried [where session = session and t = 0 and fl = fl
      and rest = "[1, 2, 3, 4]" and st = request_init, OF r0]
  note e1 = request_loop_retried [where session = session and t = 1 and fl = fl
      and rest = "[2, 3, 4]" and st = ?st1, OF r1]
  note e2 = request_loop_retried [where session = session and t = 2 and fl = fl
      and rest = "[3, 4]" and st = ?st2, OF r2]
  note e3 = request_loop_retried [where session = session and t = 3 and fl = fl
      and rest = "[4]" and st = ?st3, OF r3]
  have req: "request jl fl session = request_loop jl fl session [4] ?st4"
    by (simp only: request_def e0 e1 e2 e3)
  have att: "attempts ?st4 = 4" by (simp add: request_init_def)
  note last = request_loop_last_5xx [where session = session and t = 4 and fl = fl
      and st = ?st4, OF r4]
  show "fst (request jl fl session) = Inl (PlatformServerError r4 d4)"
    using last by (simp only: req)
  have "attempts (snd (request jl fl session)) = Suc (attempts ?st4)"
    using last by (simp only: req)
  then show "attempts (snd (request jl fl session)) = 5"
    using att by simp
qed

theorem C5_five_attempts_server_error_witness:
  "attempts (snd (request json_fails_on_empty no_float
      (script [Responds (plain_response 500), Responds (plain_response 502),
               Responds (plain_response 504), Responds (plain_response 524),
               Responds (plain_response 503)]))) = 5
   \<and> fst (request json_fails_on_empty no_float
      (script [Responds (plain_response 500), Responds (plain_response 502),
               Responds (plain_response 504), Responds (plain_response 524),
               Responds (plain_response 503)]))
       = Inl (PlatformServerError (plain_response 503) (Text []))"
proof -
  let ?s = "script [Responds (plain_response 500), Responds (plain_response 502),
               Responds (plain_response 504), Responds (plain_response 524),
               Responds (plain_response 503)]"
  have d: "read_data json_fails_on_empty (plain_response c) = Inr (Text [])" for c
    by (simp add: read_data_def json_or_text_def headers_get_def plain_response_def)
  have h: "(\<forall>i<4. \<exists>r d. ?s i = Responds r \<and> status r \<in> {500, 502, 504, 524}
              \<and> read_data json_fails_on_empty r = Inr d)
       \<and> ?s 4 = Responds (plain_response 503) \<and> 500 \<le> status (plain_response 503)
       \<and> status (plain_response 503) < 600
       \<and> read_data json_fails_on_empty (plain_response 503) = Inr (Text [])"
  proof (intro conjI allI impI)
    fix i :: nat assume "i < 4"
    then consider "i = 0" | "i = 1" | "i = 2" | "i = 3" by linarith
    then show "\<exists>r d. ?s i = Responds r \<and> status r \<in> {500, 502, 504, 524}
              \<and> read_data json_fails_on_empty r = Inr d"
      by cases (simp_all add: script_def d, simp_all add: plain_response_def)
  qed (simp_all add: script_def d, simp_all add: plain_response_def)
  from C5_five_attempts_server_error [of json_fails_on_empty no_float ?s "plain_response 503"
      "Text []"] h
  show ?thesis by blast
qed

section \<open>Properties of the gateway\<close>

text \<open>The heartbeat thread never writes the latency: only \<^verbatim>\<open>record_pong\<close> does.\<close>

lemma run_loop_latency:
  "latency (fst (snd (run_loop rs hb lg))) = latency hb"
proof (induction rs arbitrary: hb lg)
  case Nil
  then show ?case by simp
next
  case (Cons r rs)
  show ?case
    by (auto simp add: Let_def stop_def Cons.IH split: option.splits prod.splits sum.splits)
qed

text \<open>A thread that is running after some beats goes on from there with the next ones.\<close>

lemma run_loop_Running_append:
  "run_loop rs hb lg = (Running, hb', lg') \<Longrightarrow>
   run_loop (rs @ rs') hb lg = run_loop rs' hb' lg' \<and> \<not> stop_ev hb'"
proof (induction rs arbitrary: hb lg)
  case Nil
  then show ?case by (auto split: if_splits)
next
  case (Cons r rs)
  then show ?case
    by (auto simp add: Let_def split: if_splits option.splits prod.splits sum.splits)
qed

text \<open>
  C7: before any acknowledgment has been recorded the latency is infinite: without a
  heartbeater, on a \<^verbatim>\<open>Heartbeater\<close> just constructed, and after any run of the heartbeat
  thread, which never writes the latency; also when read through \<^verbatim>\<open>WebSocket.latency\<close>.
  \<^verbatim>\<open>record_pong\<close> at clock reading \<open>t1\<close> sets the latency to \<open>t1\<close> minus the stored time of
  the last probe; when the thread, running after any beats, completes a probe at reading
  \<open>t0\<close>, that stored time is \<open>t0\<close>, so that the acknowledgment at \<open>t1\<close> records the latency
  \<open>t1 - t0\<close>, also when read through the \<^verbatim>\<open>WebSocket\<close>.
\<close>

theorem C7_latency:
  "ws_latency (WebSocket_init sock) = Inf
   \<and> latency (Heartbeater_init ival a b) = Inf
   \<and> latency (fst (snd (run beats (Heartbeater_init ival a b)))) = Inf
   \<and> ws_latency (ws\<lparr>ws_heartbeater :=
        Some (fst (snd (run beats (Heartbeater_init ival a b))))\<rparr>) = Inf
   \<and> latency (fst (record_pong t1 hb)) = Fin (t1 - last_ping hb)
   \<and> (fst (run beats (Heartbeater_init ival a b)) = Running \<longrightarrow>
        last_ping (fst (snd (run (beats @ [probe t0]) (Heartbeater_init ival a b)))) = t0
        \<and> latency (fst (record_pong t1
            (fst (snd (run (beats @ [probe t0]) (Heartbeater_init ival a b)))))) = Fin (t1 - t0)
        \<and> ws_latency (ws\<lparr>ws_heartbeater := Some (fst (record_pong t1
            (fst (snd (run (beats @ [probe t0]) (Heartbeater_init ival a b))))))\<rparr>)
            = Fin (t1 - t0))"
proof -
  let ?init = "Heartbeater_init ival a b"
  have inf: "latency (fst (snd (run beats ?init))) = Inf"
    by (simp add: run_def run_loop_latency) (simp add: Heartbeater_init_def)
  have pong: "latency (fst (record_pong t hb')) = Fin (t - last_ping hb')" for t hb'
    by (simp add: record_pong_def Let_def)
  have after: "last_ping (fst (snd (run (beats @ [probe t0]) ?init))) = t0"
    if run: "fst (run beats ?init) = Running"
  proof -
    obtain hb' lg' where r: "run_loop beats ?init [Debug ''Starting heartbeat thread.'']
        = (Running, hb', lg')"
      using run by (cases "run_loop beats ?init [Debug ''Starting heartbeat thread.'']")
        (simp add: run_def)
    from run_loop_Running_append [OF r, of "[probe t0]"]
    show ?thesis by (simp add: run_def probe_def Let_def)
  qed
  show ?thesis
    using inf pong after
    by (simp add: ws_latency_def WebSocket_init_def) (simp add: Heartbeater_init_def)
qed

theorem C7_latency_witness:
  "fst (run [probe 1, probe 2] (Heartbeater_init 5 0 0)) = Running
   \<and> latency (fst (snd (run [probe 1, probe 2] (Heartbeater_init 5 0 0)))) = Inf
   \<and> last_ping (fst (snd (run ([probe 1, probe 2] @ [probe 7]) (Heartbeater_init 5 0 0)))) = 7
   \<and> latency (fst (record_pong 9
        (fst (snd (run ([probe 1, probe 2] @ [probe 7]) (Heartbeater_init 5 0 0))))))
       = Fin (9 - 7)"
proof -
  have h: "fst (run [probe 1, probe 2] (Heartbeater_init 5 0 0)) = Running"
    by (simp add: run_def probe_def Heartbeater_init_def Let_def)
  from C7_latency [of _ 5 0 0 "[probe 1, probe 2]" _ 9 _ 7] h
  show ?thesis by blast
qed

text \<open>
  What \<^verbatim>\<open>connect\<close> does by design: a failed handshake (\<^verbatim>\<open>WSServerHandshakeError\<close>) is
  logged as an error and comes back as the returned value, with no probe; and on a class
  that defines \<^verbatim>\<open>ping\<close>, a successful handshake is followed by exactly one probe, awaited
  before the connection is returned: when the probe raises, its exception leaves
  \<^verbatim>\<open>connect\<close> and no connection is returned.
\<close>

lemma connect_handshake_failure:
  "connect (Inl (WSServerHandshakeError m)) ping =
     (Inr (ReturnedError (WSServerHandshakeError m)),
      [WsConnect, Log (Error (''Failed to connect to websocket: '' @ m))])"
  by simp

lemma connect_with_ping:
  "connect (Inr sock) (Some None) =
     (Inr (ReturnedWebSocket (WebSocket_init sock)),
      [WsConnect, Log (Info ''Connected to websocket.''), Ping])
   \<and> connect (Inr sock) (Some (Some e)) =
     (Inl e, [WsConnect, Log (Info ''Connected to websocket.''), Ping])"
  by (simp add: Let_def)


section \<open>Properties of the liveness monitor\<close>

text \<open>
  With the attribute \<^verbatim>\<open>_main_thread_id\<close> set, the inner loop of \<^verbatim>\<open>run\<close> logs one
  warning for each timeout and goes on waiting, until the probe completes or fails.
\<close>

lemma wait_result_with_thread_id:
  "main_thread_id hb = Some tid \<Longrightarrow>
   fst (wait_result hb tos fin tot lg) = (case fin of None \<Rightarrow> Inr () | Some e \<Rightarrow> Inl e)
   \<and> length (snd (wait_result hb tos fin tot lg)) = length lg + length tos"
proof (induction tos arbitrary: tot lg)
  case Nil
  then show ?case by (cases fin) simp_all
next
  case (Cons f tos)
  then show ?case by (simp add: Let_def)
qed

text \<open>
  What does stop the thread by design: a probe that fails. And a failure to schedule the
  probe is raised outside the \<^verbatim>\<open>try\<close>, so it leaves \<^verbatim>\<open>run\<close> as an exception.
\<close>

lemma run_probe_failure_stops:
  "run (\<lparr>stop_called = False, schedule = None, timeouts = [], final = Some e, clock = t\<rparr> # rest)
     (Heartbeater_init ival a b)
   = (Stopped, stop (Heartbeater_init ival a b),
      [Debug ''Starting heartbeat thread.'', Debug ''Sending heartbeat.''])"
  by (cases rest) (simp_all add: run_def Heartbeater_init_def stop_def Let_def)

lemma run_schedule_failure_escapes:
  "run (\<lparr>stop_called = False, schedule = Some e, timeouts = ts, final = fin, clock = t\<rparr> # rest)
     (Heartbeater_init ival a b)
   = (Died e, Heartbeater_init ival a b,
      [Debug ''Starting heartbeat thread.'', Debug ''Sending heartbeat.''])"
  by (simp add: run_def Heartbeater_init_def stop_def Let_def)

text \<open>
  C2, at a stall: on a heartbeater as its constructor makes it, when the first wait for a
  probe times out, the handler raises \<^verbatim>\<open>AttributeError\<close> for \<^verbatim>\<open>_main_thread_id\<close> before
  anything is logged; the outer \<^verbatim>\<open>except Exception\<close> calls \<^verbatim>\<open>stop()\<close>, and the thread
  ends: no stall warning, no further probe, whatever the rest of the script is.
\<close>

theorem C2_stall_stops_the_monitor:
  "run (\<lparr>stop_called = False, schedule = None, timeouts = frame_found # later,
         final = fin, clock = t\<rparr> # rest) (Heartbeater_init ival a b)
   = (Stopped, stop (Heartbeater_init ival a b),
      [Debug ''Starting heartbeat thread.'', Debug ''Sending heartbeat.''])"
  by (cases rest) (simp_all add: run_def Heartbeater_init_def stop_def Let_def)

section \<open>Properties of Mentions.fill\<close>

lemma cached_user_of_add_member:
  "u' \<noteq> uid \<Longrightarrow>
   cached_user_of (add_to_member_cache \<lparr>server_id = sid, entity_id = uid, entity_payload = p\<rparr> c) srv u'
     = cached_user_of c srv u'"
  by (auto simp add: cached_user_of_def add_to_member_cache_def get_user_cached_def
      get_server_member_def Let_def split: option.splits)

lemma cached_user_of_add_user:
  "u' \<noteq> uid \<Longrightarrow>
   cached_user_of (add_to_user_cache \<lparr>user_id = uid, user_payload = p\<rparr> c) srv u'
     = cached_user_of c srv u'"
  by (auto simp add: cached_user_of_def add_to_user_cache_def get_user_cached_def
      get_server_member_def Let_def split: option.splits)

lemma fill_users_each_calls:
  assumes "distinct us"
    and "\<forall>u\<in>set us. continues ie (fetch_user env srv u)"
  shows "fst (fill_users_each env ic ie srv us st) = None
    \<and> calls (snd (fill_users_each env ic ie srv us st))
        = calls st @ map (user_call srv) [u \<leftarrow> us. ic \<or> cached_user_of (cache st) srv u = None]"
  using assms
proof (induction us arbitrary: st)
  case Nil
  then show ?case by simp
next
  case (Cons u us)
  have d: "distinct us" and nin: "u \<notin> set us" using Cons.prems(1) by auto
  have c: "\<forall>v\<in>set us. continues ie (fetch_user env srv v)" using Cons.prems(2) by auto
  have cu: "continues ie (fetch_user env srv u)" using Cons.prems(2) by auto
  note IH = Cons.IH [OF d c]
  show ?case
  proof (cases "ic \<or> cached_user_of (cache st) srv u = None")
    case False
    then show ?thesis using IH [of st] by (auto simp add: Let_def)
  next
    case True
    show ?thesis
    proof (cases srv)
      case None
      show ?thesis
      proof (cases "get_user env u")
        case (Inl e)
        then have sw: "swallowed ie e" using cu None by (simp add: continues_def fetch_user_def)
        show ?thesis using True None Inl sw IH [of "issue (GetUser u) st"]
          by (simp add: Let_def issue_def user_call_def)
      next
        case (Inr p)
        have f: "[v \<leftarrow> us. ic \<or> cached_user_of (add_to_user_cache \<lparr>user_id = u, user_payload = p\<rparr> (cache st)) srv v = None]
           = [v \<leftarrow> us. ic \<or> cached_user_of (cache st) srv v = None]"
        proof (rule filter_cong)
          fix v assume "v \<in> set us"
          then have "v \<noteq> u" using nin by auto
          then show "(ic \<or> cached_user_of (add_to_user_cache \<lparr>user_id = u, user_payload = p\<rparr> (cache st)) srv v = None)
             = (ic \<or> cached_user_of (cache st) srv v = None)"
            by (simp add: cached_user_of_add_user)
        qed simp
        show ?thesis using True None Inr f
            IH [of "(issue (GetUser u) st)\<lparr>cache := add_to_user_cache \<lparr>user_id = u, user_payload = p\<rparr> (cache (issue (GetUser u) st))\<rparr>"]
          by (simp add: Let_def issue_def user_call_def)
      qed
    next
      case (Some sid)
      show ?thesis
      proof (cases "fetch_member env sid u")
        case (Inl e)
        then have sw: "swallowed ie e" using cu Some by (simp add: continues_def fetch_user_def)
        show ?thesis using True Some Inl sw IH [of "issue (FetchMember u) st"]
          by (simp add: Let_def issue_def user_call_def)
      next
        case (Inr p)
        have f: "[v \<leftarrow> us. ic \<or> cached_user_of (add_to_member_cache \<lparr>server_id = sid, entity_id = u, entity_payload = p\<rparr> (cache st)) srv v = None]
           = [v \<leftarrow> us. ic \<or> cached_user_of (cache st) srv v = None]"
        proof (rule filter_cong)
          fix v assume "v \<in> set us"
          then have "v \<noteq> u" using nin by auto
          then show "(ic \<or> cached_user_of (add_to_member_cache \<lparr>server_id = sid, entity_id = u, entity_payload = p\<rparr> (cache st)) srv v = None)
             = (ic \<or> cached_user_of (cache st) srv v = None)"
            by (simp add: cached_user_of_add_member)
        qed simp
        show ?thesis using True Some Inr f
            IH [of "(issue (FetchMember u) st)\<lparr>cache := add_to_member_cache \<lparr>server_id = sid, entity_id = u, entity_payload = p\<rparr> (cache (issue (FetchMember u) st))\<rparr>"]
          by (simp add: Let_def issue_def user_call_def)
      qed
    qed
  qed
qed

lemma fill_roles_each_other_calls:
  "filter (\<lambda>x. \<not> is_role_call x) (calls (snd (fill_roles_each env ic ie srv rs st)))
     = filter (\<lambda>x. \<not> is_role_call x) (calls st)"
  by (induction rs arbitrary: st)
     (auto simp: Let_def issue_def split: option.splits sum.splits)

lemma fill_channels_other_calls:
  "filter (\<lambda>x. \<not> is_channel_call x) (calls (snd (fill_channels env ic ie srv cs st)))
     = filter (\<lambda>x. \<not> is_channel_call x) (calls st)"
  by (induction cs arbitrary: st)
     (auto simp: Let_def issue_def split: option.splits sum.splits)

lemma fill_users_each_other_calls:
  "filter (\<lambda>x. \<not> is_user_call x) (calls (snd (fill_users_each env ic ie srv us st)))
     = filter (\<lambda>x. \<not> is_user_call x) (calls st)"
  by (induction us arbitrary: st)
     (auto simp: Let_def issue_def split: option.splits sum.splits)

lemma fill_roles_other_calls:
  "filter (\<lambda>x. \<not> is_role_call x) (calls (snd (fill_roles env ic ie m st)))
     = filter (\<lambda>x. \<not> is_role_call x) (calls st)"
  by (auto simp: fill_roles_def fill_roles_bulk_def fill_roles_each_other_calls Let_def issue_def
      split: option.splits sum.splits)

lemma fill_users_other_calls:
  "filter (\<lambda>x. \<not> is_user_call x) (calls (snd (fill_users env ic ie m st)))
     = filter (\<lambda>x. \<not> is_user_call x) (calls st)"
  by (auto simp: fill_users_def fill_users_bulk_def fill_users_each_other_calls Let_def issue_def
      split: option.splits sum.splits)

lemma filter_through:
  assumes "filter (\<lambda>x. \<not> P x) xs = filter (\<lambda>x. \<not> P x) ys" and "\<And>x. Q x \<Longrightarrow> \<not> P x"
  shows "filter Q xs = filter Q ys"
proof -
  have "filter Q zs = filter Q (filter (\<lambda>x. \<not> P x) zs)" for zs
    using assms(2) by (induction zs) auto
  then show ?thesis using assms(1) by metis
qed

lemma user_not_role: "is_user_call x \<Longrightarrow> \<not> is_role_call x"
  by (cases x) auto
lemma user_not_channel: "is_user_call x \<Longrightarrow> \<not> is_channel_call x"
  by (cases x) auto
lemma role_not_channel: "is_role_call x \<Longrightarrow> \<not> is_channel_call x"
  by (cases x) auto
lemma role_not_user: "is_role_call x \<Longrightarrow> \<not> is_user_call x"
  by (cases x) auto
lemma channel_not_user: "is_channel_call x \<Longrightarrow> \<not> is_user_call x"
  by (cases x) auto
lemma channel_not_role: "is_channel_call x \<Longrightarrow> \<not> is_role_call x"
  by (cases x) auto

lemma fill_user_calls:
  "filter is_user_call (calls (snd (fill env ic ie m c)))
     = filter is_user_call (calls (snd (fill_users env ic ie m \<lparr>cache = c, calls = []\<rparr>)))"
proof -
  obtain r1 st1 where u: "fill_users env ic ie m \<lparr>cache = c, calls = []\<rparr> = (r1, st1)"
    by (cases "fill_users env ic ie m \<lparr>cache = c, calls = []\<rparr>")
  obtain r2 st2 where r: "fill_roles env ic ie m st1 = (r2, st2)"
    by (cases "fill_roles env ic ie m st1")
  have a: "filter is_user_call (calls st2) = filter is_user_call (calls st1)"
    using filter_through [OF fill_roles_other_calls [of env ic ie m st1], of is_user_call]
    by (simp add: r user_not_role)
  have b: "filter is_user_call (calls (snd (fill_channels env ic ie (m_server m) (m_channels m) st2)))
      = filter is_user_call (calls st2)"
    using filter_through [OF fill_channels_other_calls [of env ic ie "m_server m" "m_channels m" st2], of is_user_call]
    by (simp add: user_not_channel)
  show ?thesis
    by (cases r1; cases r2) (simp_all add: fill_def u r a b)
qed


lemma map_filter_all_None:
  "(\<forall>x\<in>set xs. f x = None) \<Longrightarrow> List.map_filter f xs = []"
  by (induction xs) (simp_all add: List.map_filter_simps)

lemma fill_users_bulk_calls:
  "calls (snd (fill_users_bulk env sid ids st)) = calls st @ [FetchMembers]"
  by (simp add: fill_users_bulk_def issue_def Let_def split: sum.splits)

lemma is_user_call_user_call: "is_user_call (user_call srv u)"
  by (cases srv) (simp_all add: user_call_def)

text \<open>
  C6, amended: a fill attached to a server whose mention data references 6 distinct
  uncached user ids issues exactly one call of \<^verbatim>\<open>fetch_members\<close> and no call for a single
  user, whatever that call answers. A fill that references 3 distinct uncached user ids
  issues the 3 individual fetches, in the order of the references (\<^verbatim>\<open>fetch_member\<close> with a
  server, \<^verbatim>\<open>get_user\<close> without), provided each of them answers or its exception is
  swallowed; with \<^verbatim>\<open>ignore_errors\<close> unset the first failing fetch ends the fill.
\<close>

theorem C6_user_fetches:
  "(m_server m = Some sid \<and> length (m_users m) = 6 \<and> distinct (m_users m)
      \<and> (\<forall>u\<in>set (m_users m). cached_user_of c (Some sid) u = None)
     \<longrightarrow> filter is_user_call (calls (snd (fill env ic ie m c))) = [FetchMembers])
   \<and> (length (m_users m) = 3 \<and> distinct (m_users m)
      \<and> (\<forall>u\<in>set (m_users m). cached_user_of c (m_server m) u = None)
      \<and> (\<forall>u\<in>set (m_users m). continues ie (fetch_user env (m_server m) u))
     \<longrightarrow> filter is_user_call (calls (snd (fill env ic ie m c)))
          = map (user_call (m_server m)) (m_users m)
        \<and> length (filter is_user_call (calls (snd (fill env ic ie m c)))) = 3)"
proof (intro conjI impI)
  assume h: "m_server m = Some sid \<and> length (m_users m) = 6 \<and> distinct (m_users m)
      \<and> (\<forall>u\<in>set (m_users m). cached_user_of c (Some sid) u = None)"
  then have "Mentions_users c m = []"
    by (simp add: Mentions_users_def map_filter_all_None)
  then have "fill_users env ic ie m \<lparr>cache = c, calls = []\<rparr>
      = fill_users_bulk env sid (m_users m) \<lparr>cache = c, calls = []\<rparr>"
    using h by (simp add: fill_users_def)
  then show "filter is_user_call (calls (snd (fill env ic ie m c))) = [FetchMembers]"
    by (simp add: fill_user_calls fill_users_bulk_calls)
next
  assume h: "length (m_users m) = 3 \<and> distinct (m_users m)
      \<and> (\<forall>u\<in>set (m_users m). cached_user_of c (m_server m) u = None)
      \<and> (\<forall>u\<in>set (m_users m). continues ie (fetch_user env (m_server m) u))"
  have each: "fill_users env ic ie m \<lparr>cache = c, calls = []\<rparr>
      = fill_users_each env ic ie (m_server m) (m_users m) \<lparr>cache = c, calls = []\<rparr>"
    using h by (simp add: fill_users_def split: option.splits)
  have all: "[u \<leftarrow> m_users m. ic \<or> cached_user_of c (m_server m) u = None] = m_users m"
    using h by simp
  have "calls (snd (fill_users env ic ie m \<lparr>cache = c, calls = []\<rparr>))
      = map (user_call (m_server m)) (m_users m)"
    using fill_users_each_calls [of "m_users m" ie env "m_server m" ic "\<lparr>cache = c, calls = []\<rparr>"] h
    by (simp add: each all)
  then show "filter is_user_call (calls (snd (fill env ic ie m c)))
      = map (user_call (m_server m)) (m_users m)"
    by (simp add: fill_user_calls is_user_call_user_call)
  then show "length (filter is_user_call (calls (snd (fill env ic ie m c)))) = 3"
    using h by simp
qed


lemma get_server_role_add_role:
  "r' \<noteq> rid \<Longrightarrow>
   get_server_role (add_to_role_cache \<lparr>server_id = sid, entity_id = rid, entity_payload = p\<rparr> c) sid' r'
     = get_server_role c sid' r'"
  by (simp add: get_server_role_def add_to_role_cache_def)

lemma get_server_channel_add_channel:
  "c' \<noteq> cid \<Longrightarrow>
   get_server_channel_or_thread
     (add_to_server_channel_cache \<lparr>server_id = sid, entity_id = cid, entity_payload = p\<rparr> c) sid' c'
     = get_server_channel_or_thread c sid' c'"
  by (simp add: get_server_channel_or_thread_def add_to_server_channel_cache_def)

lemma fill_roles_each_calls:
  assumes "distinct rs"
    and "\<forall>r\<in>set rs. continues ie (fetch_role env sid r)"
  shows "fst (fill_roles_each env ic ie (Some sid) rs st) = None
    \<and> calls (snd (fill_roles_each env ic ie (Some sid) rs st))
        = calls st @ map FetchRole [r \<leftarrow> rs. ic \<or> get_server_role (cache st) sid r = None]"
  using assms
proof (induction rs arbitrary: st)
  case Nil
  then show ?case by simp
next
  case (Cons r rs)
  have d: "distinct rs" and nin: "r \<notin> set rs" using Cons.prems(1) by auto
  have c: "\<forall>v\<in>set rs. continues ie (fetch_role env sid v)" using Cons.prems(2) by auto
  have cu: "continues ie (fetch_role env sid r)" using Cons.prems(2) by auto
  note IH = Cons.IH [OF d c]
  show ?case
  proof (cases "ic \<or> get_server_role (cache st) sid r = None")
    case False
    then show ?thesis using IH [of st] by (auto simp add: Let_def)
  next
    case True
    show ?thesis
    proof (cases "fetch_role env sid r")
      case (Inl e)
      then have sw: "swallowed ie e" using cu by (simp add: continues_def)
      show ?thesis using True Inl sw IH [of "issue (FetchRole r) st"]
        by (simp add: Let_def issue_def)
    next
      case (Inr p)
      have f: "[v \<leftarrow> rs. ic \<or> get_server_role (add_to_role_cache
                 \<lparr>server_id = sid, entity_id = r, entity_payload = p\<rparr> (cache st)) sid v = None]
           = [v \<leftarrow> rs. ic \<or> get_server_role (cache st) sid v = None]"
      proof (rule filter_cong)
        fix v assume "v \<in> set rs"
        then have "v \<noteq> r" using nin by auto
        then show "(ic \<or> get_server_role (add_to_role_cache
                 \<lparr>server_id = sid, entity_id = r, entity_payload = p\<rparr> (cache st)) sid v = None)
             = (ic \<or> get_server_role (cache st) sid v = None)"
          by (simp add: get_server_role_add_role)
      qed simp
      show ?thesis using True Inr f
          IH [of "(issue (FetchRole r) st)\<lparr>cache := add_to_role_cache
                 \<lparr>server_id = sid, entity_id = r, entity_payload = p\<rparr> (cache (issue (FetchRole r) st))\<rparr>"]
        by (simp add: Let_def issue_def)
    qed
  qed
qed

lemma fill_channels_calls:
  assumes "distinct cs"
    and "\<forall>ch\<in>set cs. continues ie (fetch_channel env sid ch)"
  shows "fst (fill_channels env ic ie (Some sid) cs st) = None
    \<and> calls (snd (fill_channels env ic ie (Some sid) cs st))
        = calls st @ map FetchChannel
            [ch \<leftarrow> cs. ic \<or> get_server_channel_or_thread (cache st) sid ch = None]"
  using assms
proof (induction cs arbitrary: st)
  case Nil
  then show ?case by simp
next
  case (Cons r rs)
  have d: "distinct rs" and nin: "r \<notin> set rs" using Cons.prems(1) by auto
  have c: "\<forall>v\<in>set rs. continues ie (fetch_channel env sid v)" using Cons.prems(2) by auto
  have cu: "continues ie (fetch_channel env sid r)" using Cons.prems(2) by auto
  note IH = Cons.IH [OF d c]
  show ?case
  proof (cases "ic \<or> get_server_channel_or_thread (cache st) sid r = None")
    case False
    then show ?thesis using IH [of st] by (auto simp add: Let_def)
  next
    case True
    show ?thesis
    proof (cases "fetch_channel env sid r")
      case (Inl e)
      then have sw: "swallowed ie e" using cu by (simp add: continues_def)
      show ?thesis using True Inl sw IH [of "issue (FetchChannel r) st"]
        by (simp add: Let_def issue_def)
    next
      case (Inr p)
      have f: "[v \<leftarrow> rs. ic \<or> get_server_channel_or_thread (add_to_server_channel_cache
                 \<lparr>server_id = sid, entity_id = r, entity_payload = p\<rparr> (cache st)) sid v = None]
           = [v \<leftarrow> rs. ic \<or> get_server_channel_or_thread (cache st) sid v = None]"
      proof (rule filter_cong)
        fix v assume "v \<in> set rs"
        then have "v \<noteq> r" using nin by auto
        then show "(ic \<or> get_server_channel_or_thread (add_to_server_channel_cache
                 \<lparr>server_id = sid, entity_id = r, entity_payload = p\<rparr> (cache st)) sid v = None)
             = (ic \<or> get_server_channel_or_thread (cache st) sid v = None)"
          by (simp add: get_server_channel_add_channel)
      qed simp
      show ?thesis using True Inr f
          IH [of "(issue (FetchChannel r) st)\<lparr>cache := add_to_server_channel_cache
                 \<lparr>server_id = sid, entity_id = r, entity_payload = p\<rparr> (cache (issue (FetchChannel r) st))\<rparr>"]
        by (simp add: Let_def issue_def)
    qed
  qed
qed

lemma foldl_members_keeps:
  "roles (foldl (\<lambda>c member. if entity_id member \<in> S then add_to_member_cache member c else c) c ms)
     = roles c
   \<and> channels (foldl (\<lambda>c member. if entity_id member \<in> S then add_to_member_cache member c else c) c ms)
     = channels c"
  by (induction ms arbitrary: c) (simp_all add: add_to_member_cache_def)

lemma foldl_roles_keeps:
  "channels (foldl (\<lambda>c role. if entity_id role \<in> S then add_to_role_cache role c else c) c rs)
     = channels c"
  by (induction rs arbitrary: c) (simp_all add: add_to_role_cache_def)

lemma fill_users_each_keeps:
  "roles (cache (snd (fill_users_each env ic ie srv us st))) = roles (cache st)
   \<and> channels (cache (snd (fill_users_each env ic ie srv us st))) = channels (cache st)"
  by (induction us arbitrary: st)
     (auto simp: Let_def issue_def add_to_member_cache_def add_to_user_cache_def
       split: option.splits sum.splits)

lemma fill_users_keeps:
  "roles (cache (snd (fill_users env ic ie m st))) = roles (cache st)
   \<and> channels (cache (snd (fill_users env ic ie m st))) = channels (cache st)"
  by (auto simp: fill_users_def fill_users_bulk_def fill_users_each_keeps foldl_members_keeps
      Let_def issue_def split: option.splits sum.splits)

lemma fill_roles_each_keeps:
  "channels (cache (snd (fill_roles_each env ic ie srv rs st))) = channels (cache st)"
  by (induction rs arbitrary: st)
     (auto simp: Let_def issue_def add_to_role_cache_def split: option.splits sum.splits)

lemma fill_roles_keeps:
  "channels (cache (snd (fill_roles env ic ie m st))) = channels (cache st)"
  by (auto simp: fill_roles_def fill_roles_bulk_def fill_roles_each_keeps foldl_roles_keeps
      Let_def issue_def split: option.splits sum.splits)

lemma fill_channels_keeps:
  "roles (cache (snd (fill_channels env ic ie srv cs st))) = roles (cache st)"
  by (induction cs arbitrary: st)
     (auto simp: Let_def issue_def add_to_server_channel_cache_def split: option.splits sum.splits)

lemma foldl_roles_cached:
  "roles c k \<noteq> None \<Longrightarrow>
   roles (foldl (\<lambda>c role. if entity_id role \<in> S then add_to_role_cache role c else c) c rs) k \<noteq> None"
  by (induction rs arbitrary: c) (simp_all add: add_to_role_cache_def)

lemma foldl_roles_populates:
  "r \<in> set rs \<Longrightarrow> entity_id r \<in> S \<Longrightarrow>
   roles (foldl (\<lambda>c role. if entity_id role \<in> S then add_to_role_cache role c else c) c rs)
     (server_id r, entity_id r) \<noteq> None"
proof (induction rs arbitrary: c)
  case Nil
  then show ?case by simp
next
  case (Cons x rs)
  show ?case
  proof (cases "x = r")
    case True
    then show ?thesis using Cons.prems(2)
      by (simp add: foldl_roles_cached add_to_role_cache_def)
  next
    case False
    then show ?thesis using Cons by simp
  qed
qed


lemma fill_roles_bulk_calls:
  "calls (snd (fill_roles_bulk env sid ids st)) = calls st @ [FetchRoles]"
  by (simp add: fill_roles_bulk_def issue_def Let_def split: sum.splits)

lemma Mentions_roles_cong:
  assumes "roles c' = roles c"
  shows "Mentions_roles c' m = Mentions_roles c m"
proof -
  have "get_server_role c' sid = get_server_role c sid" for sid
    using assms by (simp add: fun_eq_iff get_server_role_def)
  then show ?thesis by (simp add: Mentions_roles_def split: option.splits)
qed

text \<open>
  C3, amended, for a fill attached to a server. Roles follow the two paths of users. When
  the user part has not raised and at least 5 role references are uncached, or there are
  at least 5 and \<^verbatim>\<open>ignore_cache\<close> is set, the fill issues exactly one call of
  \<^verbatim>\<open>fetch_roles\<close> and no call for a single role, and when that call answers, every
  role it answers that is referenced is cached afterwards. Otherwise, when the user part
  has not raised, the role references are distinct and each individual fetch answers or
  has its exception swallowed (an \<^verbatim>\<open>HTTPException\<close> with \<^verbatim>\<open>ignore_errors\<close> set), the fill
  fetches, one by one and in order, the role references that are missing from the cache
  (all of them under \<^verbatim>\<open>ignore_cache\<close>). Channels have one path only: when neither the
  user part nor the role part has raised, the channel references are distinct and each
  individual fetch answers or has its exception swallowed, the channel references that
  are missing from the cache (all of them under \<^verbatim>\<open>ignore_cache\<close>) are fetched one by
  one, whatever their number.
\<close>

theorem C3_roles_dual_path_channels_individual:
  assumes srv: "m_server m = Some sid"
    and users_ok: "fst (fill_users env ic ie m \<lparr>cache = c, calls = []\<rparr>) = None"
  shows
    "((5 \<le> int (length (m_roles m)) - int (length (Mentions_roles c m))
         \<or> (5 \<le> length (m_roles m) \<and> ic))
      \<longrightarrow> filter is_role_call (calls (snd (fill env ic ie m c))) = [FetchRoles]
        \<and> (\<forall>rs r. fetch_roles env sid = Inr rs \<and> r \<in> set rs \<and> entity_id r \<in> set (m_roles m)
             \<longrightarrow> get_server_role (cache (snd (fill env ic ie m c))) (server_id r) (entity_id r)
                   \<noteq> None))
     \<and> (\<not> (5 \<le> int (length (m_roles m)) - int (length (Mentions_roles c m))
            \<or> (5 \<le> length (m_roles m) \<and> ic))
         \<and> distinct (m_roles m)
         \<and> (\<forall>r\<in>set (m_roles m). continues ie (fetch_role env sid r))
      \<longrightarrow> filter is_role_call (calls (snd (fill env ic ie m c)))
            = map FetchRole [r \<leftarrow> m_roles m. ic \<or> get_server_role c sid r = None])
     \<and> (fst (fill_roles env ic ie m (snd (fill_users env ic ie m \<lparr>cache = c, calls = []\<rparr>))) = None
         \<and> distinct (m_channels m)
         \<and> (\<forall>ch\<in>set (m_channels m). continues ie (fetch_channel env sid ch))
      \<longrightarrow> filter is_channel_call (calls (snd (fill env ic ie m c)))
            = map FetchChannel
                [ch \<leftarrow> m_channels m. ic \<or> get_server_channel_or_thread c sid ch = None])"
proof -
  define st1 where "st1 = snd (fill_users env ic ie m \<lparr>cache = c, calls = []\<rparr>)"
  define R where "R = fill_roles env ic ie m st1"
  have U: "fill_users env ic ie m \<lparr>cache = c, calls = []\<rparr> = (None, st1)"
    using users_ok by (simp add: st1_def prod_eq_iff)
  have keep1: "roles (cache st1) = roles c" "channels (cache st1) = channels c"
    using fill_users_keeps [of env ic ie m "\<lparr>cache = c, calls = []\<rparr>"] by (simp_all add: st1_def)
  have nouser: "filter (\<lambda>x. \<not> is_user_call x) (calls st1) = []"
    using fill_users_other_calls [of env ic ie m "\<lparr>cache = c, calls = []\<rparr>"] by (simp add: st1_def)
  have norole1: "filter is_role_call (calls st1) = []"
    using filter_through [of is_user_call "calls st1" "[]" is_role_call] nouser
    by (simp add: role_not_user)
  have nochan1: "filter is_channel_call (calls st1) = []"
    using filter_through [of is_user_call "calls st1" "[]" is_channel_call] nouser
    by (simp add: channel_not_user)
  have nochanR: "filter is_channel_call (calls (snd R)) = []"
    using filter_through [OF fill_roles_other_calls [of env ic ie m st1], of is_channel_call] nochan1
    by (simp add: R_def channel_not_role)
  have keepR: "channels (cache (snd R)) = channels c"
    using fill_roles_keeps [of env ic ie m st1] keep1 by (simp add: R_def)
  have fill_eq: "fill env ic ie m c =
      (case R of (Some e, st2) \<Rightarrow> (Some e, st2)
       | (None, st2) \<Rightarrow> fill_channels env ic ie (m_server m) (m_channels m) st2)"
    by (simp add: fill_def U R_def)
  have role_calls: "filter is_role_call (calls (snd (fill env ic ie m c)))
      = filter is_role_call (calls (snd R))"
  proof (cases R)
    case (Pair r2 st2)
    have "filter is_role_call (calls (snd (fill_channels env ic ie (m_server m) (m_channels m) st2)))
        = filter is_role_call (calls st2)"
      using filter_through [OF fill_channels_other_calls [of env ic ie "m_server m" "m_channels m" st2],
          of is_role_call]
      by (simp add: role_not_channel)
    then show ?thesis using Pair by (cases r2) (simp_all add: fill_eq)
  qed
  have MR: "Mentions_roles (cache st1) m = Mentions_roles c m"
    using keep1(1) by (rule Mentions_roles_cong)
  have gsr: "get_server_role (cache st1) sid r = get_server_role c sid r" for r
    by (simp add: get_server_role_def keep1)
  have gsc: "get_server_channel_or_thread (cache (snd R)) sid ch = get_server_channel_or_thread c sid ch" for ch
    by (simp add: get_server_channel_or_thread_def keepR)
  show ?thesis
  proof (intro conjI impI)
    assume b: "5 \<le> int (length (m_roles m)) - int (length (Mentions_roles c m))
         \<or> (5 \<le> length (m_roles m) \<and> ic)"
    then have Rb: "R = fill_roles_bulk env sid (m_roles m) st1"
      using srv by (auto simp add: R_def fill_roles_def MR)
    show "filter is_role_call (calls (snd (fill env ic ie m c))) = [FetchRoles]"
      by (simp add: role_calls Rb fill_roles_bulk_calls norole1)
    show "\<forall>rs r. fetch_roles env sid = Inr rs \<and> r \<in> set rs \<and> entity_id r \<in> set (m_roles m)
             \<longrightarrow> get_server_role (cache (snd (fill env ic ie m c))) (server_id r) (entity_id r)
                   \<noteq> None"
    proof (intro allI impI)
      fix rs r
      assume h: "fetch_roles env sid = Inr rs \<and> r \<in> set rs \<and> entity_id r \<in> set (m_roles m)"
      then have Rv: "R = (None, (issue FetchRoles st1)\<lparr>cache :=
             foldl (\<lambda>c role. if entity_id role \<in> set (m_roles m)
                              then add_to_role_cache role c else c)
                   (cache (issue FetchRoles st1)) rs\<rparr>)"
        by (simp add: Rb fill_roles_bulk_def Let_def)
      have "roles (cache (snd (fill env ic ie m c))) = roles (cache (snd R))"
        by (simp add: fill_eq Rv fill_channels_keeps)
      then show "get_server_role (cache (snd (fill env ic ie m c))) (server_id r) (entity_id r) \<noteq> None"
        using h foldl_roles_populates [of r rs "set (m_roles m)"]
        by (simp add: get_server_role_def Rv)
    qed
  next
    assume e: "\<not> (5 \<le> int (length (m_roles m)) - int (length (Mentions_roles c m))
            \<or> (5 \<le> length (m_roles m) \<and> ic))
         \<and> distinct (m_roles m)
         \<and> (\<forall>r\<in>set (m_roles m). continues ie (fetch_role env sid r))"
    then have Re: "R = fill_roles_each env ic ie (Some sid) (m_roles m) st1"
      using srv by (auto simp add: R_def fill_roles_def MR)
    show "filter is_role_call (calls (snd (fill env ic ie m c)))
            = map FetchRole [r \<leftarrow> m_roles m. ic \<or> get_server_role c sid r = None]"
      using fill_roles_each_calls [of "m_roles m" ie env sid ic st1] e
      by (simp add: role_calls Re norole1 gsr comp_def)
  next
    assume h: "fst (fill_roles env ic ie m (snd (fill_users env ic ie m \<lparr>cache = c, calls = []\<rparr>))) = None
         \<and> distinct (m_channels m)
         \<and> (\<forall>ch\<in>set (m_channels m). continues ie (fetch_channel env sid ch))"
    then have "fst R = None" by (simp add: R_def st1_def)
    then have "fill env ic ie m c = fill_channels env ic ie (Some sid) (m_channels m) (snd R)"
      using srv by (cases R) (simp add: fill_eq)
    then show "filter is_channel_call (calls (snd (fill env ic ie m c)))
            = map FetchChannel
                [ch \<leftarrow> m_channels m. ic \<or> get_server_channel_or_thread c sid ch = None]"
      using fill_channels_calls [of "m_channels m" ie env sid ic "snd R"] h
      by (simp add: nochanR gsc comp_def)
  qed
qed

section \<open>Mentions.fill in concrete scenarios\<close>

text \<open>
  C4, at a failing bulk fetch: with \<^verbatim>\<open>ignore_errors\<close> set, a server and 5 uncached user
  references, \<^verbatim>\<open>fill\<close> takes the bulk path; \<^verbatim>\<open>fetch_members\<close> is called outside any
  \<^verbatim>\<open>try\<close>, so its \<^verbatim>\<open>HTTPException\<close> leaves \<^verbatim>\<open>fill\<close> although errors are to be ignored.
\<close>

theorem C4_bulk_failure_is_not_swallowed:
  "fill (failing_env (HTTPException (plain_response 400) NoData)) False True
     (mentions_of (Some ''s'') [''u1'', ''u2'', ''u3'', ''u4'', ''u5''] [] []) empty_cache
   = (Some (HTTPException (plain_response 400) NoData),
      \<lparr>cache = empty_cache, calls = [FetchMembers]\<rparr>)"
  by (simp add: fill_def fill_users_def fill_users_bulk_def failing_env_def mentions_of_def
      empty_cache_def Mentions_users_def cached_user_of_def get_user_cached_def
      get_server_member_def issue_def List.map_filter_def Let_def)

text \<open>
  C6, as stated, at 3 distinct uncached user ids whose first fetch fails with
  \<^verbatim>\<open>ignore_errors\<close> unset: one individual fetch is issued, not 3, and the exception leaves
  \<^verbatim>\<open>fill\<close>.
\<close>

theorem C6_counterexample_first_fetch_fails:
  "fill (failing_env (NotFound (plain_response 404) NoData)) False False
     (mentions_of (Some ''s'') [''u1'', ''u2'', ''u3''] [] []) empty_cache
   = (Some (NotFound (plain_response 404) NoData),
      \<lparr>cache = empty_cache, calls = [FetchMember ''u1'']\<rparr>)"
  by (simp add: fill_def fill_users_def failing_env_def mentions_of_def
      empty_cache_def Mentions_users_def cached_user_of_def get_user_cached_def
      get_server_member_def issue_def List.map_filter_def Let_def swallowed_def)

text \<open>
  C3, as stated, at 5 uncached channel references on a server: the calls of the fill are
  5 individual channel fetches and no bulk fetch.
\<close>

theorem C3_counterexample_five_channels:
  "calls (snd (fill answering_env False False
     (mentions_of (Some ''s'') [] [''c1'', ''c2'', ''c3'', ''c4'', ''c5''] []) empty_cache))
   = [FetchChannel ''c1'', FetchChannel ''c2'', FetchChannel ''c3'', FetchChannel ''c4'',
      FetchChannel ''c5'']"
  by (simp add: fill_def fill_users_def fill_roles_def answering_env_def mentions_of_def
      empty_cache_def Mentions_users_def Mentions_roles_def get_server_channel_or_thread_def
      add_to_server_channel_cache_def issue_def List.map_filter_def Let_def)

theorem C6_user_fetches_witness:
  "filter is_user_call (calls (snd (fill answering_env False False
      (mentions_of (Some ''s'') [''u1'', ''u2'', ''u3'', ''u4'', ''u5'', ''u6''] [] [])
      empty_cache))) = [FetchMembers]
   \<and> filter is_user_call (calls (snd (fill answering_env False False
      (mentions_of (Some ''s'') [''u1'', ''u2'', ''u3''] [] []) empty_cache)))
     = [FetchMember ''u1'', FetchMember ''u2'', FetchMember ''u3'']"
proof -
  let ?m6 = "mentions_of (Some ''s'') [''u1'', ''u2'', ''u3'', ''u4'', ''u5'', ''u6''] [] []"
  let ?m3 = "mentions_of (Some ''s'') [''u1'', ''u2'', ''u3''] [] []"
  have h6: "m_server ?m6 = Some ''s'' \<and> length (m_users ?m6) = 6 \<and> distinct (m_users ?m6)
      \<and> (\<forall>u\<in>set (m_users ?m6). cached_user_of empty_cache (Some ''s'') u = None)"
    by (simp add: mentions_of_def cached_user_of_def empty_cache_def get_user_cached_def
        get_server_member_def)
  have h3: "length (m_users ?m3) = 3 \<and> distinct (m_users ?m3)
      \<and> (\<forall>u\<in>set (m_users ?m3). cached_user_of empty_cache (m_server ?m3) u = None)
      \<and> (\<forall>u\<in>set (m_users ?m3). continues False (fetch_user answering_env (m_server ?m3) u))"
    by (simp add: mentions_of_def cached_user_of_def empty_cache_def get_user_cached_def
        get_server_member_def continues_def fetch_user_def answering_env_def)
  have a: "filter is_user_call (calls (snd (fill answering_env False False ?m6 empty_cache)))
      = [FetchMembers]"
    using C6_user_fetches [of ?m6 "''s''" empty_cache answering_env False False] h6 by blast
  have b: "filter is_user_call (calls (snd (fill answering_env False False ?m3 empty_cache)))
      = map (user_call (m_server ?m3)) (m_users ?m3)"
    using C6_user_fetches [of ?m3 "''s''" empty_cache answering_env False False] h3 by blast
  show ?thesis using a b by (simp add: mentions_of_def user_call_def)
qed

theorem C3_roles_dual_path_channels_individual_witness:
  "filter is_role_call (calls (snd (fill answering_env False False
      (mentions_of (Some ''s'') [] [] [''r1'', ''r2'', ''r3'', ''r4'', ''r5'']) empty_cache)))
     = [FetchRoles]
   \<and> get_server_role (cache (snd (fill answering_env False False
      (mentions_of (Some ''s'') [] [] [''r1'', ''r2'', ''r3'', ''r4'', ''r5'']) empty_cache)))
      ''s'' ''r1'' \<noteq> None
   \<and> filter is_role_call (calls (snd (fill answering_env False False
      (mentions_of (Some ''s'') [] [] [''r1'', ''r2'']) empty_cache)))
     = [FetchRole ''r1'', FetchRole ''r2'']
   \<and> filter is_channel_call (calls (snd (fill answering_env False False
      (mentions_of (Some ''s'') [] [''c1'', ''c2'', ''c3'', ''c4'', ''c5'', ''c6''] []) empty_cache)))
     = [FetchChannel ''c1'', FetchChannel ''c2'', FetchChannel ''c3'', FetchChannel ''c4'',
        FetchChannel ''c5'', FetchChannel ''c6'']"
proof -
  let ?m5 = "mentions_of (Some ''s'') [] [] [''r1'', ''r2'', ''r3'', ''r4'', ''r5'']"
  let ?m2 = "mentions_of (Some ''s'') [] [] [''r1'', ''r2'']"
  let ?mc = "mentions_of (Some ''s'') [] [''c1'', ''c2'', ''c3'', ''c4'', ''c5'', ''c6''] []"
  let ?r1 = "\<lparr>server_id = ''s'', entity_id = ''r1'', entity_payload = JNull\<rparr>"
  have s5: "m_server ?m5 = Some ''s''" and s2: "m_server ?m2 = Some ''s''"
    and sc: "m_server ?mc = Some ''s''"
    by (simp_all add: mentions_of_def)
  have u5: "fst (fill_users answering_env False False ?m5 \<lparr>cache = empty_cache, calls = []\<rparr>) = None"
    and u2: "fst (fill_users answering_env False False ?m2 \<lparr>cache = empty_cache, calls = []\<rparr>) = None"
    and uc: "fst (fill_users answering_env False False ?mc \<lparr>cache = empty_cache, calls = []\<rparr>) = None"
    by (simp_all add: fill_users_def mentions_of_def Mentions_users_def List.map_filter_def)
  have b5: "5 \<le> int (length (m_roles ?m5)) - int (length (Mentions_roles empty_cache ?m5))
         \<or> (5 \<le> length (m_roles ?m5) \<and> False)"
    by (simp add: mentions_of_def Mentions_roles_def List.map_filter_def get_server_role_def
        empty_cache_def)
  have f5: "fetch_roles answering_env ''s'' = Inr [?r1] \<and> ?r1 \<in> set [?r1]
      \<and> entity_id ?r1 \<in> set (m_roles ?m5)"
    by (simp add: answering_env_def mentions_of_def)
  have b2: "\<not> (5 \<le> int (length (m_roles ?m2)) - int (length (Mentions_roles empty_cache ?m2))
            \<or> (5 \<le> length (m_roles ?m2) \<and> False))
         \<and> distinct (m_roles ?m2)
         \<and> (\<forall>r\<in>set (m_roles ?m2). continues False (fetch_role answering_env ''s'' r))"
    by (simp add: mentions_of_def Mentions_roles_def List.map_filter_def get_server_role_def
        empty_cache_def continues_def answering_env_def)
  have hc: "fst (fill_roles answering_env False False ?mc
               (snd (fill_users answering_env False False ?mc \<lparr>cache = empty_cache, calls = []\<rparr>))) = None
         \<and> distinct (m_channels ?mc)
         \<and> (\<forall>ch\<in>set (m_channels ?mc). continues False (fetch_channel answering_env ''s'' ch))"
    by (simp add: fill_users_def fill_roles_def mentions_of_def Mentions_users_def
        Mentions_roles_def List.map_filter_def continues_def answering_env_def)
  note t5 = C3_roles_dual_path_channels_individual [OF s5 u5]
  note t2 = C3_roles_dual_path_channels_individual [OF s2 u2]
  note tc = C3_roles_dual_path_channels_individual [OF sc uc]
  have a: "filter is_role_call (calls (snd (fill answering_env False False ?m5 empty_cache)))
      = [FetchRoles]"
    using t5 b5 by blast
  have b: "get_server_role (cache (snd (fill answering_env False False ?m5 empty_cache)))
      (server_id ?r1) (entity_id ?r1) \<noteq> None"
    using t5 b5 f5 by blast
  have c: "filter is_role_call (calls (snd (fill answering_env False False ?m2 empty_cache)))
      = map FetchRole [r \<leftarrow> m_roles ?m2. False \<or> get_server_role empty_cache ''s'' r = None]"
    using t2 b2 by blast
  have d: "filter is_channel_call (calls (snd (fill answering_env False False ?mc empty_cache)))
      = map FetchChannel
          [ch \<leftarrow> m_channels ?mc. False \<or> get_server_channel_or_thread empty_cache ''s'' ch = None]"
    using tc hc by blast
  show ?thesis using a b c d
    by (simp add: mentions_of_def get_server_role_def get_server_channel_or_thread_def
        empty_cache_def)
qed

section \<open>Properties of the message cache\<close>

lemma dict_set_new:
  "k \<notin> fst ` set d \<Longrightarrow> dict_set k v d = d @ [(k, v)]"
  by (induction d) auto

lemma evict_drop:
  "0 \<le> cap \<Longrightarrow> evict cap xs = drop (length xs - nat cap) xs"
proof (induction xs)
  case Nil
  then show ?case by simp
next
  case (Cons x xs)
  then show ?case by (auto simp: Suc_diff_le drop_Cons' nat_le_iff)
qed

lemma length_evict:
  "0 \<le> cap \<Longrightarrow> length (evict cap xs) \<le> nat cap"
  by (simp add: evict_drop)

lemma create_message_bounded:
  "max_messages c = Some cap \<Longrightarrow> 0 \<le> cap \<Longrightarrow>
   max_messages (snd (create_message msg c)) = Some cap
   \<and> length (messages (snd (create_message msg c))) \<le> nat cap"
  by (simp add: create_message_def Let_def length_evict)

lemma create_messages_bounded:
  "max_messages c = Some cap \<Longrightarrow> 0 \<le> cap \<Longrightarrow> length (messages c) \<le> nat cap \<Longrightarrow>
   length (messages (create_messages msgs c)) \<le> nat cap"
proof (induction msgs arbitrary: c)
  case Nil
  then show ?case by simp
next
  case (Cons m msgs)
  note b = create_message_bounded [OF Cons.prems(1,2), of m]
  show ?case
    using Cons.IH [OF b [THEN conjunct1] Cons.prems(2) b [THEN conjunct2]] by simp
qed

lemma map_of_tl_distinct:
  "distinct (map fst xs) \<Longrightarrow> xs \<noteq> [] \<Longrightarrow> map_of (tl xs) (fst (hd xs)) = None"
  by (cases xs) (auto simp: map_of_eq_None_iff)

lemma map_of_tl_other:
  "xs \<noteq> [] \<Longrightarrow> k \<noteq> fst (hd xs) \<Longrightarrow> map_of (tl xs) k = map_of xs k"
  by (cases xs) auto

text \<open>
  C9: in a message cache of capacity 1000 that holds 1000 messages, the insertion of a
  message with a new identifier removes exactly the entry inserted first and appends the
  new one: the oldest identifier is no longer found, the new message is found, every other
  lookup is unchanged, and the cache holds 1000 messages again. The order is that of
  insertion: a lookup does not change the cache. And from the empty cache that the
  constructor makes, with a capacity \<open>cap\<close> (1000 by default), no sequence of insertions
  brings the cache above \<open>cap\<close> entries.
\<close>

theorem C9_fifo_eviction:
  "(max_messages c = Some 1000 \<and> length (messages c) = 1000
      \<and> distinct (map fst (messages c)) \<and> message_id msg \<notin> fst ` set (messages c)
     \<longrightarrow> messages (snd (create_message msg c)) = tl (messages c) @ [(message_id msg, msg)]
       \<and> get_message (snd (create_message msg c)) (fst (hd (messages c))) = None
       \<and> get_message (snd (create_message msg c)) (message_id msg) = Some msg
       \<and> (\<forall>k. k \<noteq> fst (hd (messages c)) \<and> k \<noteq> message_id msg
            \<longrightarrow> get_message (snd (create_message msg c)) k = get_message c k)
       \<and> length (messages (snd (create_message msg c))) = 1000)
   \<and> (0 \<le> cap \<longrightarrow>
        length (messages (create_messages msgs (HTTPClientBase_init (Some cap)))) \<le> nat cap)
   \<and> length (messages (create_messages msgs (HTTPClientBase_init default_max_messages))) \<le> 1000"
proof (intro conjI impI)
  assume h: "max_messages c = Some 1000 \<and> length (messages c) = 1000
      \<and> distinct (map fst (messages c)) \<and> message_id msg \<notin> fst ` set (messages c)"
  then have ne: "messages c \<noteq> []" by auto
  have st: "dict_set (message_id msg) msg (messages c) = messages c @ [(message_id msg, msg)]"
    using h by (simp add: dict_set_new)
  have ev: "evict 1000 (messages c @ [(message_id msg, msg)]) = tl (messages c) @ [(message_id msg, msg)]"
    using h ne by (simp add: evict_drop drop_Suc tl_append2 [symmetric] del: tl_append2)
  show eq: "messages (snd (create_message msg c)) = tl (messages c) @ [(message_id msg, msg)]"
    using h by (simp add: create_message_def Let_def st ev)
  have hdk: "fst (hd (messages c)) \<noteq> message_id msg"
    using h ne by (cases "messages c") auto
  show "get_message (snd (create_message msg c)) (fst (hd (messages c))) = None"
    using h ne hdk by (simp add: get_message_def eq map_of_tl_distinct map_add_def)
  have "message_id msg \<notin> fst ` set (tl (messages c))"
    using h list.set_sel(2) [OF ne] by auto
  then have nk: "map_of (tl (messages c)) (message_id msg) = None"
    by (simp add: map_of_eq_None_iff)
  show "get_message (snd (create_message msg c)) (message_id msg) = Some msg"
    by (simp add: get_message_def eq map_add_def nk)
  show "\<forall>k. k \<noteq> fst (hd (messages c)) \<and> k \<noteq> message_id msg
            \<longrightarrow> get_message (snd (create_message msg c)) k = get_message c k"
    using ne by (auto simp add: get_message_def eq map_of_tl_other map_add_def split: option.splits)
  show "length (messages (snd (create_message msg c))) = 1000"
    using h ne by (simp add: eq)
next
  assume "0 \<le> cap"
  then show "length (messages (create_messages msgs (HTTPClientBase_init (Some cap)))) \<le> nat cap"
    by (intro create_messages_bounded) (simp_all add: HTTPClientBase_init_def)
next
  show "length (messages (create_messages msgs (HTTPClientBase_init default_max_messages))) \<le> 1000"
    using create_messages_bounded [of "HTTPClientBase_init default_max_messages" 1000 msgs]
    by (simp add: HTTPClientBase_init_def default_max_messages_def)
qed


theorem C9_fifo_eviction_witness:
  "length (messages full_client) = 1000
   \<and> messages (snd (create_message new_message full_client))
       = tl (messages full_client) @ [(message_id new_message, new_message)]
   \<and> get_message (snd (create_message new_message full_client))
        (fst (hd (messages full_client))) = None
   \<and> length (messages (snd (create_message new_message full_client))) = 1000
   \<and> length (messages (create_messages [new_message] (HTTPClientBase_init (Some 1000)))) \<le> nat 1000"
proof -
  have len: "length (messages full_client) = 1000" by (simp add: full_client_def)
  have inj: "inj_on (\<lambda>n. replicate (Suc n) CHR ''m'') A" for A :: "nat set"
    by (rule inj_onI) (metis length_replicate nat.inject)
  have dis: "distinct (map fst (messages full_client))"
    using inj by (simp add: full_client_def numbered_message_def comp_def distinct_map)
  have new: "message_id new_message \<notin> fst ` set (messages full_client)"
    by (auto simp add: full_client_def numbered_message_def new_message_def)
  have h: "max_messages full_client = Some 1000 \<and> length (messages full_client) = 1000
      \<and> distinct (map fst (messages full_client))
      \<and> message_id new_message \<notin> fst ` set (messages full_client)"
    using len dis new by (simp add: full_client_def)
  have c: "(0::int) \<le> 1000" by simp
  from C9_fifo_eviction [of full_client new_message 1000 "[new_message]"] h c len
  show ?thesis by blast
qed

section \<open>Properties of handle\_message\_parameters\<close>

text \<open>
  C10, as stated, at a call with both \<^verbatim>\<open>file\<close> and \<^verbatim>\<open>files\<close> and with 11 embeds: the
  check of the mixed arguments comes first and raises \<^verbatim>\<open>TypeError\<close>; no \<^verbatim>\<open>ValueError\<close> is
  raised although \<^verbatim>\<open>embeds\<close> has more than 10 elements.
\<close>

theorem C10_counterexample_type_error_first:
  "handle_message_parameters unit_to_dict no_dumps
     (no_args\<lparr>a_file := Given some_file, a_files := Given [some_file],
              a_embeds := Given (replicate 11 ())\<rparr>)
   = Inl (TypeError ''Cannot mix file and files keyword arguments.'')"
  by (simp add: handle_message_parameters_def no_args_def)

text \<open>
  C10, amended: \<^verbatim>\<open>handle_message_parameters\<close> raises \<^verbatim>\<open>TypeError\<close> whenever both \<^verbatim>\<open>file\<close>
  and \<^verbatim>\<open>files\<close> are supplied and whenever both \<^verbatim>\<open>embed\<close> and \<^verbatim>\<open>embeds\<close> are supplied;
  when neither pair is mixed it raises \<^verbatim>\<open>ValueError\<close> whenever \<^verbatim>\<open>embeds\<close> has more than 10
  elements; and for every input with none of the three conditions it returns a
  \<^verbatim>\<open>MultipartParameters\<close> value.
\<close>

theorem C10_validation:
  "(a_files a \<noteq> MISSING \<and> a_file a \<noteq> MISSING
      \<longrightarrow> handle_message_parameters to_dict json_dumps a
            = Inl (TypeError ''Cannot mix file and files keyword arguments.''))
   \<and> (a_embeds a \<noteq> MISSING \<and> a_embed a \<noteq> MISSING
      \<longrightarrow> (\<exists>msg. handle_message_parameters to_dict json_dumps a = Inl (TypeError msg)))
   \<and> (\<not> (a_files a \<noteq> MISSING \<and> a_file a \<noteq> MISSING)
       \<and> \<not> (a_embeds a \<noteq> MISSING \<and> a_embed a \<noteq> MISSING)
       \<and> (\<exists>es. a_embeds a = Given es \<and> length es > 10)
      \<longrightarrow> handle_message_parameters to_dict json_dumps a
            = Inl (ValueError ''embeds has a maximum of 10 elements.''))
   \<and> (\<not> (a_files a \<noteq> MISSING \<and> a_file a \<noteq> MISSING)
       \<and> \<not> (a_embeds a \<noteq> MISSING \<and> a_embed a \<noteq> MISSING)
       \<and> \<not> (\<exists>es. a_embeds a = Given es \<and> length es > 10)
      \<longrightarrow> (\<exists>mp. handle_message_parameters to_dict json_dumps a = Inr mp))"
proof (intro conjI impI)
  assume "a_files a \<noteq> MISSING \<and> a_file a \<noteq> MISSING"
  then show "handle_message_parameters to_dict json_dumps a
            = Inl (TypeError ''Cannot mix file and files keyword arguments.'')"
    by (simp add: handle_message_parameters_def)
next
  assume "a_embeds a \<noteq> MISSING \<and> a_embed a \<noteq> MISSING"
  then show "\<exists>msg. handle_message_parameters to_dict json_dumps a = Inl (TypeError msg)"
    by (simp add: handle_message_parameters_def)
next
  assume h: "\<not> (a_files a \<noteq> MISSING \<and> a_file a \<noteq> MISSING)
       \<and> \<not> (a_embeds a \<noteq> MISSING \<and> a_embed a \<noteq> MISSING)
       \<and> (\<exists>es. a_embeds a = Given es \<and> length es > 10)"
  then obtain es where es: "a_embeds a = Given es" "length es > 10" by blast
  have c1: "\<not> (a_files a \<noteq> MISSING \<and> a_file a \<noteq> MISSING)" using h by blast
  have c2: "\<not> (a_embeds a \<noteq> MISSING \<and> a_embed a \<noteq> MISSING)" using h by blast
  show "handle_message_parameters to_dict json_dumps a
            = Inl (ValueError ''embeds has a maximum of 10 elements.'')"
    unfolding handle_message_parameters_def using c1 c2 es by (simp add: Let_def)
next
  assume h: "\<not> (a_files a \<noteq> MISSING \<and> a_file a \<noteq> MISSING)
       \<and> \<not> (a_embeds a \<noteq> MISSING \<and> a_embed a \<noteq> MISSING)
       \<and> \<not> (\<exists>es. a_embeds a = Given es \<and> length es > 10)"
  have c1: "\<not> (a_files a \<noteq> MISSING \<and> a_file a \<noteq> MISSING)" using h by blast
  have c2: "\<not> (a_embeds a \<noteq> MISSING \<and> a_embed a \<noteq> MISSING)" using h by blast
  have c3: "\<not> (case a_embeds a of Given es \<Rightarrow> length es > 10 | MISSING \<Rightarrow> False)"
    using h by (cases "a_embeds a") auto
  show "\<exists>mp. handle_message_parameters to_dict json_dumps a = Inr mp"
    unfolding handle_message_parameters_def using c1 c2 c3
    by (simp add: Let_def split: arg.split list.split)
qed

theorem C10_validation_witness:
  "handle_message_parameters unit_to_dict no_dumps
       (no_args\<lparr>a_file := Given some_file, a_files := Given [some_file]\<rparr>)
     = Inl (TypeError ''Cannot mix file and files keyword arguments.'')
   \<and> handle_message_parameters unit_to_dict no_dumps
       (no_args\<lparr>a_embed := Given (Some ()), a_embeds := Given [()]\<rparr>)
     = Inl (TypeError ''Cannot mix embed and embeds keyword arguments.'')
   \<and> handle_message_parameters unit_to_dict no_dumps
       (no_args\<lparr>a_embeds := Given (replicate 11 ())\<rparr>)
     = Inl (ValueError ''embeds has a maximum of 10 elements.'')
   \<and> handle_message_parameters unit_to_dict no_dumps
       (no_args\<lparr>a_content := Given (Some ''hi''), a_embeds := Given (replicate 10 ())\<rparr>)
     = Inr \<lparr>mp_payload = Some [(''embeds'', JArr (replicate 10 (JObj []))), (''content'', JStr ''hi'')],
            mp_multipart = [], mp_files = MISSING\<rparr>"
proof -
  let ?a1 = "no_args\<lparr>a_file := Given some_file, a_files := Given [some_file]\<rparr>"
  let ?a2 = "no_args\<lparr>a_embed := Given (Some ()), a_embeds := Given [()]\<rparr>"
  let ?a3 = "no_args\<lparr>a_embeds := Given (replicate 11 ())\<rparr>"
  let ?a4 = "no_args\<lparr>a_content := Given (Some ''hi''), a_embeds := Given (replicate 10 ())\<rparr>"
  have h1: "a_files ?a1 \<noteq> MISSING \<and> a_file ?a1 \<noteq> MISSING" by simp
  have h2: "a_embeds ?a2 \<noteq> MISSING \<and> a_embed ?a2 \<noteq> MISSING" by simp
  have h3: "\<not> (a_files ?a3 \<noteq> MISSING \<and> a_file ?a3 \<noteq> MISSING)
       \<and> \<not> (a_embeds ?a3 \<noteq> MISSING \<and> a_embed ?a3 \<noteq> MISSING)
       \<and> (\<exists>es. a_embeds ?a3 = Given es \<and> length es > 10)"
    by (simp add: no_args_def)
  have h4: "\<not> (a_files ?a4 \<noteq> MISSING \<and> a_file ?a4 \<noteq> MISSING)
       \<and> \<not> (a_embeds ?a4 \<noteq> MISSING \<and> a_embed ?a4 \<noteq> MISSING)
       \<and> \<not> (\<exists>es. a_embeds ?a4 = Given es \<and> length es > 10)"
    by (simp add: no_args_def)
  have r1: "handle_message_parameters unit_to_dict no_dumps ?a1
     = Inl (TypeError ''Cannot mix file and files keyword arguments.'')"
    using C10_validation [of ?a1 unit_to_dict no_dumps] h1 by blast
  have r2: "\<exists>msg. handle_message_parameters unit_to_dict no_dumps ?a2 = Inl (TypeError msg)"
    using C10_validation [of ?a2 unit_to_dict no_dumps] h2 by blast
  have r3: "handle_message_parameters unit_to_dict no_dumps ?a3
     = Inl (ValueError ''embeds has a maximum of 10 elements.'')"
    using C10_validation [of ?a3 unit_to_dict no_dumps] h3 by blast
  have r4: "\<exists>mp. handle_message_parameters unit_to_dict no_dumps ?a4 = Inr mp"
    using C10_validation [of ?a4 unit_to_dict no_dumps] h4 by blast
  have e2: "handle_message_parameters unit_to_dict no_dumps ?a2
     = Inl (TypeError ''Cannot mix embed and embeds keyword arguments.'')"
    using r2 by (simp add: handle_message_parameters_def no_args_def)
  have e4: "handle_message_parameters unit_to_dict no_dumps ?a4
     = Inr \<lparr>mp_payload = Some [(''embeds'', JArr (replicate 10 (JObj []))), (''content'', JStr ''hi'')],
            mp_multipart = [], mp_files = MISSING\<rparr>"
    using r4 by (simp add: handle_message_parameters_def no_args_def build_payload_def Let_def
        unit_to_dict_def)
  show ?thesis using r1 e2 r3 e4 by blast
qed

end
